theory Spec2Isabelle
  imports Complex_Main "HOL-Library.Stream"
begin
section \<open>Python values, errors and the random source\<close>

text \<open>
  The program is \<^verbatim>\<open>ImageTriangulation.py\<close>. Python floats are modelled as the real
  numbers they approximate, Python integers as \<^typ>\<open>int\<close>. Every exception the modelled
  code can raise is a value of \<open>py_error\<close>; a computation that may raise returns
  \<open>py_error + 'a\<close> with \<open>Inl\<close> for the exception.
\<close>

datatype py_error = IndexError | ZeroDivisionError

text \<open>\<^verbatim>\<open>int(r)\<close> on a float truncates towards zero.\<close>

definition py_int :: "real \<Rightarrow> int" where
  "py_int r = (if 0 \<le> r then \<lfloor>r\<rfloor> else \<lceil>r\<rceil>)"

text \<open>
  \<^verbatim>\<open>xs[i] = v\<close>, \<^verbatim>\<open>xs[i]\<close> and \<^verbatim>\<open>xs.pop(i)\<close> on a list: a negative
  index counts from the end, an index outside \<open>[-len, len)\<close> raises IndexError.
\<close>

definition py_index :: "'a list \<Rightarrow> int \<Rightarrow> py_error + nat" where
  "py_index xs i =
     (if 0 \<le> i \<and> i < int (length xs) then Inr (nat i)
      else if i < 0 \<and> - int (length xs) \<le> i then Inr (nat (int (length xs) + i))
      else Inl IndexError)"

definition py_setitem :: "'a list \<Rightarrow> int \<Rightarrow> 'a \<Rightarrow> py_error + 'a list" where
  "py_setitem xs i v = (case py_index xs i of Inl e \<Rightarrow> Inl e | Inr j \<Rightarrow> Inr (xs[j := v]))"

definition py_getitem :: "'a list \<Rightarrow> int \<Rightarrow> py_error + 'a" where
  "py_getitem xs i = (case py_index xs i of Inl e \<Rightarrow> Inl e | Inr j \<Rightarrow> Inr (xs ! j))"

definition py_pop :: "'a list \<Rightarrow> int \<Rightarrow> py_error + ('a \<times> 'a list)" where
  "py_pop xs i =
     (case py_index xs i of Inl e \<Rightarrow> Inl e | Inr j \<Rightarrow> Inr (xs ! j, take j xs @ drop (Suc j) xs))"

text \<open>
  The process-wide random source is an explicit stream of the floats that successive
  calls of \<^verbatim>\<open>random.random()\<close> return; the library's contract is that each lies in
  \<open>[0, 1)\<close>. \<^verbatim>\<open>random.uniform(a, b)\<close> is \<open>a + (b - a) * random()\<close>.
  \<^verbatim>\<open>random.randint(a, b)\<close> returns an integer of \<open>[a, b]\<close>, both ends included; it
  is modelled as taking one value \<open>u\<close> of the stream and returning
  \<open>a + \<lfloor>u * (b - a + 1)\<rfloor>\<close>, which ranges over exactly these integers. The program
  calls it with \<open>a = 0\<close> and \<open>b \<ge> 0\<close> only.
\<close>

type_synonym rng = "real stream"

definition valid_rng :: "rng \<Rightarrow> bool" where
  "valid_rng t = pred_stream (\<lambda>u. 0 \<le> u \<and> u < 1) t"

definition random_random :: "rng \<Rightarrow> real \<times> rng" where
  "random_random t = (shd t, stl t)"

definition random_uniform :: "real \<Rightarrow> real \<Rightarrow> rng \<Rightarrow> real \<times> rng" where
  "random_uniform a b t = (a + (b - a) * shd t, stl t)"

definition random_randint :: "int \<Rightarrow> int \<Rightarrow> rng \<Rightarrow> int \<times> rng" where
  "random_randint a b t = (a + \<lfloor>shd t * of_int (b - a + 1)\<rfloor>, stl t)"

section \<open>Point\<close>

record Point =
  pt_x :: int
  pt_y :: int
  priority :: real

definition PI :: real where
  "PI = 3.141592653589"

text \<open>\<^verbatim>\<open>Point(x, y)\<close>: the priority defaults to 0.0.\<close>

definition mkPoint :: "int \<Rightarrow> int \<Rightarrow> Point" where
  "mkPoint a b = \<lparr>pt_x = a, pt_y = b, priority = 0\<rparr>"

text \<open>\<^verbatim>\<open>list(point)\<close>, through \<^verbatim>\<open>__iter__\<close>: the two coordinates.\<close>

definition Point_list :: "Point \<Rightarrow> real \<times> real" where
  "Point_list p = (of_int (pt_x p), of_int (pt_y p))"

definition generateRandomPointAround :: "Point \<Rightarrow> real \<Rightarrow> rng \<Rightarrow> Point \<times> rng" where
  "generateRandomPointAround self md t =
     (let (r1, t1) = random_random t;
          (r2, t2) = random_random t1;
          radius = md * (1 + r1);
          angle = 2 * PI * r2;
          newPointX = pt_x self + py_int (radius * cos angle);
          newPointY = pt_y self + py_int (radius * sin angle)
      in (mkPoint newPointX newPointY, t2))"

definition distance :: "Point \<Rightarrow> Point \<Rightarrow> real" where
  "distance self point =
     sqrt ((of_int (pt_x point) - of_int (pt_x self))\<^sup>2 + (of_int (pt_y point) - of_int (pt_y self))\<^sup>2)"

section \<open>Grid\<close>

record Grid =
  cellSize :: real
  minDist :: real
  width :: int
  height :: int
  grid :: "Point option list"

text \<open>
  The constructor divides by \<open>cellSize\<close>, so \<open>minDist = 0\<close> raises ZeroDivisionError.
  \<^verbatim>\<open>[None] * width * height\<close> is empty when a factor is not positive.
\<close>

definition Grid_init :: "real \<Rightarrow> int \<Rightarrow> int \<Rightarrow> py_error + Grid" where
  "Grid_init md imgW imgH =
     (let cs = md / sqrt 2
      in if cs = 0 then Inl ZeroDivisionError
         else let w = \<lceil>of_int imgW / cs\<rceil>; h = \<lceil>of_int imgH / cs\<rceil>
              in Inr \<lparr>cellSize = cs, minDist = md, width = w, height = h,
                      grid = replicate (nat w * nat h) None\<rparr>)"

definition getGridCoordinates :: "Grid \<Rightarrow> Point \<Rightarrow> Point" where
  "getGridCoordinates self point =
     mkPoint (py_int (of_int (pt_x point) / cellSize self)) (py_int (of_int (pt_y point) / cellSize self))"

definition getGridIndex :: "Grid \<Rightarrow> int \<Rightarrow> int \<Rightarrow> bool \<Rightarrow> int" where
  "getGridIndex self a b gridSpace =
     (if \<not> gridSpace
      then (let c = getGridCoordinates self (mkPoint a b) in pt_y c * width self + pt_x c)
      else b * width self + a)"

definition insert_point :: "Grid \<Rightarrow> Point \<Rightarrow> py_error + Grid" where
  "insert_point self point =
     (case py_setitem (grid self) (getGridIndex self (pt_x point) (pt_y point) False) (Some point) of
        Inl e \<Rightarrow> Inl e
      | Inr cells \<Rightarrow> Inr (self\<lparr>grid := cells\<rparr>))"

text \<open>
  One cell of the neighbourhood scan: the index is computed in grid space, tested against
  \<^verbatim>\<open>range(0, len(self.grid))\<close>, and an occupied slot is compared by distance.
\<close>

definition cellHit :: "Grid \<Rightarrow> Point \<Rightarrow> int \<Rightarrow> int \<Rightarrow> bool" where
  "cellHit self point a b =
     (let index = getGridIndex self a b True
      in 0 \<le> index \<and> index < int (length (grid self)) \<and>
         (case grid self ! nat index of
            None \<Rightarrow> False
          | Some neighbor \<Rightarrow> distance point neighbor < minDist self))"

text \<open>
  \<^verbatim>\<open>range(c - radius, c + radius)\<close> runs from \<open>c - radius\<close> to \<open>c + radius - 1\<close>;
  the two nested loops return True at the first hit.
\<close>

definition checkInNeighborhood :: "Grid \<Rightarrow> Point \<Rightarrow> bool" where
  "checkInNeighborhood self point =
     (let gridCoords = getGridCoordinates self point;
          radius = 2
      in list_ex (\<lambda>b. list_ex (\<lambda>a. cellHit self point a b)
                        [pt_x gridCoords - radius .. pt_x gridCoords + radius - 1])
           [pt_y gridCoords - radius .. pt_y gridCoords + radius - 1])"

definition reset :: "Grid \<Rightarrow> Grid" where
  "reset self = self\<lparr>grid := replicate (length (grid self)) None\<rparr>"

section \<open>BlueNoiseGenerator\<close>

text \<open>
  The generator's fields. \<open>gen_grid\<close> and \<open>gen_minDist\<close> are the source's
  \<^verbatim>\<open>self.grid\<close> and \<^verbatim>\<open>self.minDist\<close> (the latter copied from the grid), and
  \<open>edgeThreshold\<close> is the constructor's own \<^verbatim>\<open>minDist\<close> argument. The image enters only
  through its shape; the weight surface that \<^verbatim>\<open>generateWeighted\<close> computes from the image
  with library calls is a parameter of the weighted sampler below.
\<close>

record BlueNoiseGenerator =
  pointCount :: int
  newPointsToGenerate :: int
  imageHeight :: int
  imageWidth :: int
  gen_grid :: Grid
  gen_minDist :: real
  sampledList :: "(real \<times> real) list"
  processingList :: "Point list"
  edgeThreshold :: real

definition BlueNoiseGenerator_init ::
    "int \<Rightarrow> int \<Rightarrow> int \<Rightarrow> Grid \<Rightarrow> real \<Rightarrow> int \<Rightarrow> BlueNoiseGenerator" where
  "BlueNoiseGenerator_init pc imgH imgW g md k =
     \<lparr>pointCount = pc, newPointsToGenerate = k, imageHeight = imgH, imageWidth = imgW,
      gen_grid = g, gen_minDist = minDist g, sampledList = [], processingList = [],
      edgeThreshold = md\<rparr>"

subsection \<open>generateBoundary\<close>

record cursors =
  upperWidth :: real
  lowerWidth :: real
  leftHeight :: real
  rightHeight :: real

definition boundary_deltas :: "BlueNoiseGenerator \<Rightarrow> real \<Rightarrow> rng \<Rightarrow> cursors \<times> rng" where
  "boundary_deltas self aspectRatio t =
     (let twiceMinDist = 2 * gen_minDist self;
          wide = imageWidth self > imageHeight self;
          tall = imageHeight self > imageWidth self;
          (upperDelta, t1) =
             (if wide then random_uniform (gen_minDist self * aspectRatio) (twiceMinDist * aspectRatio) t
              else random_uniform (gen_minDist self) twiceMinDist t);
          (lowerDelta, t2) =
             (if wide then random_uniform (gen_minDist self * aspectRatio) (twiceMinDist * aspectRatio) t1
              else random_uniform (gen_minDist self) twiceMinDist t1);
          (leftDelta, t3) =
             (if tall then random_uniform (gen_minDist self * aspectRatio) (twiceMinDist * aspectRatio) t2
              else random_uniform (gen_minDist self) twiceMinDist t2);
          (rightDelta, t4) =
             (if tall then random_uniform (gen_minDist self * aspectRatio) (twiceMinDist * aspectRatio) t3
              else random_uniform (gen_minDist self) twiceMinDist t3)
      in (\<lparr>upperWidth = upperDelta, lowerWidth = lowerDelta,
           leftHeight = leftDelta, rightHeight = rightDelta\<rparr>, t4))"

definition boundary_points :: "BlueNoiseGenerator \<Rightarrow> cursors \<Rightarrow> (real \<times> real) list" where
  "boundary_points self c =
     [(upperWidth c, 0), (lowerWidth c, of_int (imageHeight self - 1)),
      (0, leftHeight c), (of_int (imageWidth self - 1), rightHeight c)]"

partial_function (option) boundary_loop ::
    "BlueNoiseGenerator \<Rightarrow> real \<Rightarrow> cursors \<Rightarrow> rng \<Rightarrow> (BlueNoiseGenerator \<times> rng) option" where
  "boundary_loop self aspectRatio c t =
     (if lowerWidth c < of_int (imageWidth self) \<and> upperWidth c < of_int (imageWidth self) \<and>
         leftHeight c < of_int (imageHeight self) \<and> rightHeight c < of_int (imageHeight self)
      then (let self1 = self\<lparr>sampledList := sampledList self @ boundary_points self c\<rparr>;
                (d, t1) = boundary_deltas self1 aspectRatio t
            in boundary_loop self1 aspectRatio
                 \<lparr>upperWidth = upperWidth c + upperWidth d, lowerWidth = lowerWidth c + lowerWidth d,
                  leftHeight = leftHeight c + leftHeight d, rightHeight = rightHeight c + rightHeight d\<rparr> t1)
      else Some (self, t))"

definition generateBoundary ::
    "BlueNoiseGenerator \<Rightarrow> rng \<Rightarrow> (py_error + BlueNoiseGenerator \<times> rng) option" where
  "generateBoundary self t =
     (if (if imageWidth self > imageHeight self then imageHeight self else imageWidth self) = 0
      then Some (Inl ZeroDivisionError)
      else (let aspectRatio =
                  (if imageWidth self > imageHeight self
                   then of_int (imageWidth self) / of_int (imageHeight self)
                   else of_int (imageHeight self) / of_int (imageWidth self))
            in case boundary_loop self aspectRatio
                      \<lparr>upperWidth = 0, lowerWidth = 0, leftHeight = 0, rightHeight = 0\<rparr> t of
                 None \<Rightarrow> None
               | Some (self1, t1) \<Rightarrow>
                   Some (Inr (self1\<lparr>sampledList := sampledList self1 @
                                [(of_int (imageWidth self1 - 1), 0),
                                 (of_int (imageWidth self1 - 1), of_int (imageHeight self1 - 1))]\<rparr>, t1))))"

subsection \<open>Seeding and acceptance, shared by both samplers\<close>

definition startingPoint :: "BlueNoiseGenerator \<Rightarrow> rng \<Rightarrow> Point \<times> rng" where
  "startingPoint self t =
     (let (sx, t1) = random_randint 0 (imageWidth self) t;
          (sy, t2) = random_randint 0 (imageHeight self) t1
      in (mkPoint sx sy, t2))"

definition seed :: "BlueNoiseGenerator \<Rightarrow> rng \<Rightarrow> py_error + BlueNoiseGenerator \<times> rng" where
  "seed self t =
     (let (sp, t1) = startingPoint self t;
          self1 = self\<lparr>sampledList := sampledList self @ [Point_list sp],
                       processingList := processingList self @ [sp]\<rparr>
      in case insert_point (gen_grid self1) sp of
           Inl e \<Rightarrow> Inl e
         | Inr g \<Rightarrow> Inr (self1\<lparr>gen_grid := g\<rparr>, t1))"

definition accept :: "BlueNoiseGenerator \<Rightarrow> Point \<Rightarrow> py_error + BlueNoiseGenerator" where
  "accept self newPoint =
     (let self1 = self\<lparr>processingList := processingList self @ [newPoint],
                       sampledList := sampledList self @ [Point_list newPoint]\<rparr>
      in case insert_point (gen_grid self1) newPoint of
           Inl e \<Rightarrow> Inl e
         | Inr g \<Rightarrow> Inr (self1\<lparr>gen_grid := g\<rparr>))"

definition inBounds :: "BlueNoiseGenerator \<Rightarrow> Point \<Rightarrow> bool" where
  "inBounds self newPoint =
     (of_int (pt_x newPoint) > edgeThreshold self \<and>
      of_int (pt_x newPoint) < of_int (imageWidth self) - edgeThreshold self \<and>
      of_int (pt_y newPoint) > edgeThreshold self \<and>
      of_int (pt_y newPoint) < of_int (imageHeight self) - edgeThreshold self)"

definition popRandom ::
    "BlueNoiseGenerator \<Rightarrow> rng \<Rightarrow> py_error + Point \<times> BlueNoiseGenerator \<times> rng" where
  "popRandom self t =
     (let (i, t1) = random_randint 0 (int (length (processingList self)) - 1) t
      in case py_pop (processingList self) i of
           Inl e \<Rightarrow> Inl e
         | Inr (randomPoint, rest) \<Rightarrow> Inr (randomPoint, self\<lparr>processingList := rest\<rparr>, t1))"

subsection \<open>generate: the uniform sampler\<close>

text \<open>The \<^verbatim>\<open>for i in range(0, self.newPointsToGenerate)\<close> loop, by the iterations left.\<close>

fun generate_batch ::
    "nat \<Rightarrow> Point \<Rightarrow> BlueNoiseGenerator \<Rightarrow> rng \<Rightarrow> py_error + BlueNoiseGenerator \<times> rng" where
  "generate_batch 0 randomPoint self t = Inr (self, t)"
| "generate_batch (Suc n) randomPoint self t =
     (let (newPoint, t1) = generateRandomPointAround randomPoint (gen_minDist self) t
      in if inBounds self newPoint \<and> \<not> checkInNeighborhood (gen_grid self) newPoint
         then (case accept self newPoint of
                 Inl e \<Rightarrow> Inl e
               | Inr self1 \<Rightarrow> generate_batch n randomPoint self1 t1)
         else generate_batch n randomPoint self t1)"

partial_function (option) generate_loop ::
    "BlueNoiseGenerator \<Rightarrow> rng \<Rightarrow> (py_error + BlueNoiseGenerator \<times> rng) option" where
  "generate_loop self t =
     (if length (processingList self) > 0 \<and> int (length (sampledList self)) < pointCount self
      then (case popRandom self t of
              Inl e \<Rightarrow> Some (Inl e)
            | Inr (randomPoint, self1, t1) \<Rightarrow>
                (case generate_batch (nat (newPointsToGenerate self1)) randomPoint self1 t1 of
                   Inl e \<Rightarrow> Some (Inl e)
                 | Inr (self2, t2) \<Rightarrow> generate_loop self2 t2))
      else Some (Inr (self, t)))"

text \<open>The run up to the call of \<^verbatim>\<open>generateBoundary\<close>: seed and main loop.\<close>

definition generate_main ::
    "BlueNoiseGenerator \<Rightarrow> rng \<Rightarrow> (py_error + BlueNoiseGenerator \<times> rng) option" where
  "generate_main self t =
     (case seed self t of Inl e \<Rightarrow> Some (Inl e) | Inr (self1, t1) \<Rightarrow> generate_loop self1 t1)"

text \<open>The whole method; it returns \<^verbatim>\<open>self.sampledList\<close>.\<close>

definition generate :: "BlueNoiseGenerator \<Rightarrow> rng \<Rightarrow> (py_error + (real \<times> real) list) option" where
  "generate self t =
     (case generate_main self t of
        None \<Rightarrow> None
      | Some (Inl e) \<Rightarrow> Some (Inl e)
      | Some (Inr (self1, t1)) \<Rightarrow>
          (case generateBoundary self1 t1 of
             None \<Rightarrow> None
           | Some (Inl e) \<Rightarrow> Some (Inl e)
           | Some (Inr (self2, t2)) \<Rightarrow> Some (Inr (sampledList self2))))"

subsection \<open>generateWeighted: the importance-weighted sampler\<close>

text \<open>
  \<^verbatim>\<open>queue.PriorityQueue\<close> keeps its entries in a list that \<^verbatim>\<open>heapq\<close> maintains as a
  binary heap: \<^verbatim>\<open>put\<close> is \<^verbatim>\<open>heappush\<close>, \<^verbatim>\<open>get\<close> is \<^verbatim>\<open>heappop\<close>, and entries are
  compared with \<^verbatim>\<open>Point.__lt__\<close>, that is by \<open>priority\<close>. The two sifting loops of
  \<^verbatim>\<open>heapq\<close> are modelled as they are written, so that entries of equal priority leave
  the queue in the order in which the library returns them.
\<close>

text \<open>
  \<^verbatim>\<open>_siftdown(heap, startpos, pos)\<close>: the loop moves \<open>newitem\<close> towards the root while
  it is smaller than its parent.
\<close>

function siftdown_loop :: "Point list \<Rightarrow> nat \<Rightarrow> Point \<Rightarrow> nat \<Rightarrow> Point list" where
  "siftdown_loop heap startpos newitem pos =
     (if pos > startpos
      then (let parentpos = (pos - 1) div 2;
                parent = heap ! parentpos
            in if priority newitem < priority parent
               then siftdown_loop (heap[pos := parent]) startpos newitem parentpos
               else heap[pos := newitem])
      else heap[pos := newitem])"
  by pat_completeness auto
termination
  by (relation "measure (\<lambda>(heap, startpos, newitem, pos). pos)") auto

declare siftdown_loop.simps [simp del]

definition siftdown :: "Point list \<Rightarrow> nat \<Rightarrow> nat \<Rightarrow> Point list" where
  "siftdown heap startpos pos = siftdown_loop heap startpos (heap ! pos) pos"

text \<open>
  \<^verbatim>\<open>_siftup(heap, pos)\<close>: the loop moves the smaller child up until a leaf is reached
  (the right child when the left one is not smaller); the result is the heap and the leaf.
\<close>

function siftup_loop :: "Point list \<Rightarrow> nat \<Rightarrow> nat \<Rightarrow> Point list \<times> nat" where
  "siftup_loop heap endpos pos =
     (let childpos = 2 * pos + 1
      in if childpos < endpos
         then (let rightpos = childpos + 1;
                   child = (if rightpos < endpos \<and>
                               \<not> priority (heap ! childpos) < priority (heap ! rightpos)
                            then rightpos else childpos)
               in siftup_loop (heap[pos := heap ! child]) endpos child)
         else (heap, pos))"
  by pat_completeness auto
termination
  by (relation "measure (\<lambda>(heap, endpos, pos). endpos - pos)") (auto simp: Let_def)

declare siftup_loop.simps [simp del]

definition siftup :: "Point list \<Rightarrow> nat \<Rightarrow> Point list" where
  "siftup heap pos =
     (let endpos = length heap;
          startpos = pos;
          newitem = heap ! pos;
          (heap1, pos1) = siftup_loop heap endpos pos
      in siftdown (heap1[pos1 := newitem]) startpos pos1)"

definition heappush :: "Point list \<Rightarrow> Point \<Rightarrow> Point list" where
  "heappush heap item = siftdown (heap @ [item]) 0 (length heap)"

text \<open>\<^verbatim>\<open>heappop\<close>; on an empty heap \<^verbatim>\<open>heap.pop()\<close> raises IndexError.\<close>

definition heappop :: "Point list \<Rightarrow> py_error + Point \<times> Point list" where
  "heappop heap =
     (if heap = [] then Inl IndexError
      else (let lastelt = last heap;
                heap1 = butlast heap
            in if heap1 \<noteq> []
               then Inr (heap1 ! 0, siftup (heap1[0 := lastelt]) 0)
               else Inr (lastelt, heap1)))"

text \<open>\<^verbatim>\<open>self.imageWeight[newPoint.y][newPoint.x]\<close> on the two-dimensional weight array.\<close>

definition weight_at :: "real list list \<Rightarrow> int \<Rightarrow> int \<Rightarrow> py_error + real" where
  "weight_at w b a = (case py_getitem w b of Inl e \<Rightarrow> Inl e | Inr row \<Rightarrow> py_getitem row a)"

fun weighted_batch ::
    "nat \<Rightarrow> Point \<Rightarrow> BlueNoiseGenerator \<Rightarrow> real list list \<Rightarrow> Point list \<Rightarrow> rng
      \<Rightarrow> py_error + Point list \<times> rng" where
  "weighted_batch 0 randomPoint self w q t = Inr (q, t)"
| "weighted_batch (Suc n) randomPoint self w q t =
     (let (newPoint, t1) = generateRandomPointAround randomPoint (gen_minDist self) t
      in if inBounds self newPoint
         then (case weight_at w (pt_y newPoint) (pt_x newPoint) of
                 Inl e \<Rightarrow> Inl e
               | Inr v \<Rightarrow> weighted_batch n randomPoint self w (heappush q (newPoint\<lparr>priority := - v\<rparr>)) t1)
         else weighted_batch n randomPoint self w q t1)"

text \<open>
  The \<^verbatim>\<open>while not pQueue.empty() and not found\<close> loop. \<^verbatim>\<open>pQueue.get()\<close> is only
  called on a queue that is not empty.
\<close>

function drain ::
    "BlueNoiseGenerator \<Rightarrow> Point list \<Rightarrow> bool \<Rightarrow> py_error + BlueNoiseGenerator \<times> Point list" where
  "drain self q found =
     (if q \<noteq> [] \<and> \<not> found
      then (case heappop q of
              Inl e \<Rightarrow> Inl e
            | Inr (newPoint, q1) \<Rightarrow>
                if \<not> checkInNeighborhood (gen_grid self) newPoint
                then (case accept self newPoint of
                        Inl e \<Rightarrow> Inl e
                      | Inr self1 \<Rightarrow> drain self1 q1 True)
                else drain self q1 False)
      else Inr (self, q))"
  by pat_completeness auto
termination
proof (relation "measure (\<lambda>(self, q, found). length q)")
  have sd: "length (siftdown_loop h s n p) = length h" for h s n p
    by (induct h s n p rule: siftdown_loop.induct)
       (subst siftdown_loop.simps, simp add: Let_def)
  have su: "length (fst (siftup_loop h e p)) = length h" for h e p
    by (induct h e p rule: siftup_loop.induct)
       (subst siftup_loop.simps, simp add: Let_def)
  have pop: "length q1 < length q" if "heappop q = Inr (x, q1)" for q x q1
  proof -
    from that have ne: "q \<noteq> []" by (auto simp: heappop_def split: if_splits)
    have "length (siftup h p) = length h" for h p
      using su[of h "length h" p]
      by (simp add: siftup_def siftdown_def sd Let_def case_prod_beta)
    with that ne show ?thesis
      by (auto simp: heappop_def Let_def split: if_splits)
  qed
  show "wf (measure (\<lambda>(self, q, found). length q))" by simp
  show "((self1, q1, True), (self, q, found)) \<in> measure (\<lambda>(self, q, found). length q)"
    if "heappop q = Inr x" "(newPoint, q1) = x" for self q found x newPoint q1 self1
    using pop[of q newPoint q1] that by simp
  show "((self, q1, False), (self, q, found)) \<in> measure (\<lambda>(self, q, found). length q)"
    if "heappop q = Inr x" "(newPoint, q1) = x" for self q found x newPoint q1
    using pop[of q newPoint q1] that by simp
qed

declare drain.simps [simp del]

text \<open>One pass of the outer loop's body.\<close>

definition weighted_step ::
    "BlueNoiseGenerator \<Rightarrow> real list list \<Rightarrow> Point list \<Rightarrow> rng
      \<Rightarrow> py_error + BlueNoiseGenerator \<times> Point list \<times> rng" where
  "weighted_step self w q t =
     (case popRandom self t of
        Inl e \<Rightarrow> Inl e
      | Inr (randomPoint, self1, t1) \<Rightarrow>
          (case weighted_batch (nat (newPointsToGenerate self1)) randomPoint self1 w q t1 of
             Inl e \<Rightarrow> Inl e
           | Inr (q1, t2) \<Rightarrow>
               (case drain self1 q1 False of
                  Inl e \<Rightarrow> Inl e
                | Inr (self2, q2) \<Rightarrow> Inr (self2, q2, t2))))"

partial_function (option) weighted_loop ::
    "BlueNoiseGenerator \<Rightarrow> real list list \<Rightarrow> Point list \<Rightarrow> rng
      \<Rightarrow> (py_error + BlueNoiseGenerator \<times> Point list \<times> rng) option" where
  "weighted_loop self w q t =
     (if length (processingList self) > 0 \<and> int (length (sampledList self)) < pointCount self
      then (case weighted_step self w q t of
              Inl e \<Rightarrow> Some (Inl e)
            | Inr (self1, q1, t1) \<Rightarrow> weighted_loop self1 w q1 t1)
      else Some (Inr (self, q, t)))"

definition generateWeighted_main ::
    "BlueNoiseGenerator \<Rightarrow> real list list \<Rightarrow> rng
      \<Rightarrow> (py_error + BlueNoiseGenerator \<times> Point list \<times> rng) option" where
  "generateWeighted_main self w t =
     (case seed self t of Inl e \<Rightarrow> Some (Inl e) | Inr (self1, t1) \<Rightarrow> weighted_loop self1 w [] t1)"

definition generateWeighted ::
    "BlueNoiseGenerator \<Rightarrow> real list list \<Rightarrow> rng \<Rightarrow> (py_error + (real \<times> real) list) option" where
  "generateWeighted self w t =
     (case generateWeighted_main self w t of
        None \<Rightarrow> None
      | Some (Inl e) \<Rightarrow> Some (Inl e)
      | Some (Inr (self1, q1, t1)) \<Rightarrow>
          (case generateBoundary self1 t1 of
             None \<Rightarrow> None
           | Some (Inl e) \<Rightarrow> Some (Inl e)
           | Some (Inr (self2, t2)) \<Rightarrow> Some (Inr (sampledList self2))))"

text \<open>
  Inserting a sequence of points one after the other, as a caller of \<^verbatim>\<open>Grid.insert\<close>
  does; the first exception ends the sequence.
\<close>

fun insert_all :: "Grid \<Rightarrow> Point list \<Rightarrow> py_error + Grid" where
  "insert_all g [] = Inr g"
| "insert_all g (p # ps) = (case insert_point g p of Inl e \<Rightarrow> Inl e | Inr g1 \<Rightarrow> insert_all g1 ps)"

section \<open>calculateTriColors\<close>

text \<open>
  The image is a numpy array of shape \<open>(imageHeight, imageWidth, 3)\<close>: a function from
  row and column to the three channel values, with its two dimensions. The triangulation
  is used through \<^verbatim>\<open>find_simplex\<close> (the point-location oracle, \<open>-1\<close> outside the hull)
  and the number of its simplices.
\<close>

type_synonym rgb = "real \<times> real \<times> real"

record image =
  img_height :: nat
  img_width :: nat
  pixel :: "nat \<Rightarrow> nat \<Rightarrow> rgb"

record triangulation =
  find_simplex :: "int \<times> int \<Rightarrow> int"
  simplex_count :: nat

definition chan_r :: "rgb \<Rightarrow> real" where "chan_r c = fst c"
definition chan_g :: "rgb \<Rightarrow> real" where "chan_g c = fst (snd c)"
definition chan_b :: "rgb \<Rightarrow> real" where "chan_b c = snd (snd c)"

text \<open>
  \<^verbatim>\<open>np.c_[xx.ravel(), yy.ravel()]\<close> of the meshgrid: the coordinates \<open>(x, y)\<close> row by
  row; \<^verbatim>\<open>image.reshape(-1, 3)\<close> lists the pixels in the same order.
\<close>

definition pixelCoords :: "image \<Rightarrow> (int \<times> int) list" where
  "pixelCoords img =
     concat (map (\<lambda>b. map (\<lambda>a. (int a, int b)) [0..<img_width img]) [0..<img_height img])"

definition reshape_pixels :: "image \<Rightarrow> rgb list" where
  "reshape_pixels img =
     concat (map (\<lambda>b. map (\<lambda>a. pixel img b a) [0..<img_width img]) [0..<img_height img])"

text \<open>
  \<^verbatim>\<open>df.groupby("triangle")[["r", "g", "b"]].aggregate(f)\<close>: one row per distinct key,
  keys ascending, each channel aggregated over the rows of the key in their order.
\<close>

definition groupby_aggregate :: "(real list \<Rightarrow> real) \<Rightarrow> (int \<times> rgb) list \<Rightarrow> (int \<times> rgb) list" where
  "groupby_aggregate f df =
     map (\<lambda>k. let rows = map snd (filter (\<lambda>r. fst r = k) df)
               in (k, (f (map chan_r rows), f (map chan_g rows), f (map chan_b rows))))
         (sort (remdups (map fst df)))"

text \<open>\<^verbatim>\<open>.reindex(range(n), fill_value=0)\<close>: the rows labelled \<open>0 .. n - 1\<close>, zeros for a missing label.\<close>

definition reindex :: "nat \<Rightarrow> (int \<times> rgb) list \<Rightarrow> rgb list" where
  "reindex n rows = map (\<lambda>i. case map_of rows (int i) of None \<Rightarrow> (0, 0, 0) | Some c \<Rightarrow> c) [0..<n]"

definition calculateTriColors :: "image \<Rightarrow> triangulation \<Rightarrow> (real list \<Rightarrow> real) \<Rightarrow> rgb list" where
  "calculateTriColors img tri aggregateFunc =
     (let pixeltoTriangle = map (find_simplex tri) (pixelCoords img);
          df = zip pixeltoTriangle (reshape_pixels img);
          triangleCount = simplex_count tri;
          triangleColors = reindex triangleCount (groupby_aggregate aggregateFunc df)
      in map (\<lambda>c. (chan_r c / 256, chan_g c / 256, chan_b c / 256)) triangleColors)"

text \<open>\<^verbatim>\<open>np.mean\<close> and \<^verbatim>\<open>np.median\<close> on a non-empty one-dimensional array.\<close>

definition np_mean :: "real list \<Rightarrow> real" where
  "np_mean xs = sum_list xs / of_nat (length xs)"

definition np_median :: "real list \<Rightarrow> real" where
  "np_median xs =
     (let s = sort xs; n = length s
      in if odd n then s ! (n div 2) else (s ! (n div 2 - 1) + s ! (n div 2)) / 2)"

text \<open>The pixels that point location assigns to simplex \<open>i\<close>, in row-major order.\<close>

definition covered :: "image \<Rightarrow> triangulation \<Rightarrow> nat \<Rightarrow> rgb list" where
  "covered img tri i =
     map snd (filter (\<lambda>r. fst r = int i)
                (zip (map (find_simplex tri) (pixelCoords img)) (reshape_pixels img)))"

section \<open>Measures for the two main loops\<close>

text \<open>
  The uniform loop: every pass removes one point from the processing list; a pass that
  accepts candidates brings the sampled list closer to the target count, which bounds the
  number of such passes.
\<close>

definition uniform_measure :: "BlueNoiseGenerator \<Rightarrow> nat" where
  "uniform_measure s =
     nat (pointCount s - int (length (sampledList s))) * (nat (newPointsToGenerate s) + 1)
       + length (processingList s)"

definition weighted_measure :: "BlueNoiseGenerator \<Rightarrow> nat" where
  "weighted_measure s =
     nat (pointCount s - int (length (sampledList s))) + length (processingList s)"

section \<open>A concrete setting: an image of 100 by 100 pixels, minDist 18\<close>

definition ex_grid :: Grid where
  "ex_grid = \<lparr>cellSize = 18 / sqrt 2, minDist = 18, width = 8, height = 8, grid = replicate 64 None\<rparr>"

definition ex_gen :: "int \<Rightarrow> BlueNoiseGenerator" where
  "ex_gen pc = BlueNoiseGenerator_init pc 100 100 ex_grid 18 2"

text \<open>The state of the sampler after seed \<open>(32, 40)\<close> and accepted candidates \<open>(64, 40)\<close>, \<open>(50, 40)\<close>.\<close>

definition ex_final :: "int \<Rightarrow> BlueNoiseGenerator" where
  "ex_final pc = (ex_gen pc)\<lparr>sampledList := [(32, 40), (64, 40), (50, 40)],
      processingList := [mkPoint 64 40, mkPoint 50 40],
      gen_grid := ex_grid\<lparr>grid := (replicate 64 None)
         [26 := Some (mkPoint 32 40), 29 := Some (mkPoint 64 40), 27 := Some (mkPoint 50 40)]\<rparr>\<rparr>"

text \<open>
  A weight surface of constant 1 for the same image, and the states of the weighted
  sampler after seed \<open>(32, 40)\<close> and the accepted candidate \<open>(64, 40)\<close> of priority \<open>-1\<close>.
\<close>

definition ex_weights :: "real list list" where
  "ex_weights = replicate 100 (replicate 100 1)"

definition ex_wfinal :: "int \<Rightarrow> BlueNoiseGenerator" where
  "ex_wfinal pc = (ex_gen pc)\<lparr>sampledList := [(32, 40), (64, 40)],
      processingList := [\<lparr>pt_x = 64, pt_y = 40, priority = - 1\<rparr>],
      gen_grid := ex_grid\<lparr>grid := (replicate 64 None)
         [26 := Some (mkPoint 32 40), 29 := Some \<lparr>pt_x = 64, pt_y = 40, priority = - 1\<rparr>]\<rparr>\<rparr>"

text \<open>
  A weight surface for the same image that is 1 everywhere but for the pixels \<open>(64, 40)\<close>
  and \<open>(77, 40)\<close>, of weight 2 and 3; the candidates of the run on it and the states of
  the weighted sampler after its first and after its second pass.
\<close>

definition ex_importance :: "real list list" where
  "ex_importance = (replicate 100 (replicate 100 1))[40 := (replicate 100 1)[64 := 2, 77 := 3]]"

definition cand_A :: Point where "cand_A = \<lparr>pt_x = 64, pt_y = 40, priority = - 2\<rparr>"

definition cand_B :: Point where "cand_B = \<lparr>pt_x = 50, pt_y = 40, priority = - 1\<rparr>"

definition cand_C :: Point where "cand_C = \<lparr>pt_x = 77, pt_y = 40, priority = - 3\<rparr>"

definition cand_D :: Point where "cand_D = \<lparr>pt_x = 68, pt_y = 40, priority = - 1\<rparr>"

definition ex_seeded :: "int \<Rightarrow> BlueNoiseGenerator" where
  "ex_seeded pc = (ex_gen pc)\<lparr>sampledList := [(32, 40)],
      processingList := [mkPoint 32 40],
      gen_grid := ex_grid\<lparr>grid := (replicate 64 None)[26 := Some (mkPoint 32 40)]\<rparr>\<rparr>"

definition ex_pass1 :: "int \<Rightarrow> BlueNoiseGenerator" where
  "ex_pass1 pc = (ex_gen pc)\<lparr>sampledList := [(32, 40), (64, 40)],
      processingList := [cand_A],
      gen_grid := ex_grid\<lparr>grid := (replicate 64 None)
         [26 := Some (mkPoint 32 40), 29 := Some cand_A]\<rparr>\<rparr>"

definition ex_pass2 :: "int \<Rightarrow> BlueNoiseGenerator" where
  "ex_pass2 pc = (ex_gen pc)\<lparr>sampledList := [(32, 40), (64, 40), (50, 40)],
      processingList := [cand_B],
      gen_grid := ex_grid\<lparr>grid := (replicate 64 None)
         [26 := Some (mkPoint 32 40), 29 := Some cand_A, 27 := Some cand_B]\<rparr>\<rparr>"

text \<open>
  The random source of that run, pass by pass: the two draws of the seed; then, for each
  pass of the outer loop, the draw that picks the active point and the two pairs
  \<open>r1, r2\<close> of its two candidates.
\<close>

definition ex_draws3 :: rng where
  "ex_draws3 = 0 ## 1 / 2 ## 0 ## 0 ## 0 ## sconst 0"

definition ex_draws2 :: rng where
  "ex_draws2 = 0 ## 0 ## 0 ## 0 ## 0 ## ex_draws3"

definition ex_draws1 :: rng where
  "ex_draws1 = 0 ## 0 ## 0 ## 4 / 5 ## 0 ## ex_draws2"

definition ex_draws :: rng where
  "ex_draws = 32 / 101 ## 40 / 101 ## ex_draws1"

section \<open>Triangle colours\<close>

lemma df_as_map:
  "zip (map (find_simplex tri) (pixelCoords img)) (reshape_pixels img) =
     map (\<lambda>c. (find_simplex tri c, pixel img (nat (snd c)) (nat (fst c)))) (pixelCoords img)"
proof -
  have "reshape_pixels img = map (\<lambda>c. pixel img (nat (snd c)) (nat (fst c))) (pixelCoords img)"
    by (simp add: reshape_pixels_def pixelCoords_def map_concat comp_def)
  then show ?thesis
    by (simp add: zip_map_map zip_same_conv_map comp_def)
qed

lemma covered_as_filter:
  "covered img tri i =
     map (\<lambda>c. pixel img (nat (snd c)) (nat (fst c)))
       (filter (\<lambda>c. find_simplex tri c = int i) (pixelCoords img))"
  by (simp add: covered_def df_as_map filter_map comp_def)

lemma map_of_groupby:
  "map_of (groupby_aggregate f df) k =
     (if k \<in> fst ` set df
      then Some (let rows = map snd (filter (\<lambda>r. fst r = k) df)
                 in (f (map chan_r rows), f (map chan_g rows), f (map chan_b rows)))
      else None)"
proof -
  have "map_of (map (\<lambda>k. (k, h k)) ks) k = (if k \<in> set ks then Some (h k) else None)" for h :: "int \<Rightarrow> rgb" and ks
    by (induction ks) auto
  then show ?thesis
    unfolding groupby_aggregate_def by simp
qed

lemma covered_empty_iff:
  "covered img tri i = [] \<longleftrightarrow>
     int i \<notin> fst ` set (zip (map (find_simplex tri) (pixelCoords img)) (reshape_pixels img))"
  by (auto simp: covered_def filter_empty_conv image_iff)

lemma calculateTriColors_nth:
  assumes "i < simplex_count tri"
  shows "calculateTriColors img tri f ! i =
     (if covered img tri i = [] then (0, 0, 0)
      else (f (map chan_r (covered img tri i)) / 256,
            f (map chan_g (covered img tri i)) / 256,
            f (map chan_b (covered img tri i)) / 256))"
proof (cases "covered img tri i = []")
  case True
  then show ?thesis
    using assms
    by (simp add: calculateTriColors_def reindex_def map_of_groupby covered_empty_iff Let_def
        chan_r_def chan_g_def chan_b_def)
next
  case False
  then have m: "int i \<in> fst ` set (zip (map (find_simplex tri) (pixelCoords img)) (reshape_pixels img))"
    by (simp add: covered_empty_iff)
  show ?thesis
    using assms False
    by (simp add: calculateTriColors_def reindex_def map_of_groupby m Let_def
        chan_r_def chan_g_def chan_b_def covered_def)
qed

lemma calculateTriColors_length: "length (calculateTriColors img tri f) = simplex_count tri"
  by (simp add: calculateTriColors_def reindex_def)

lemma covered_cong:
  assumes "img_height img' = img_height img" "img_width img' = img_width img"
    and "\<And>a b. a < img_width img \<Longrightarrow> b < img_height img \<Longrightarrow> find_simplex tri (int a, int b) \<noteq> - 1
           \<Longrightarrow> pixel img' b a = pixel img b a"
  shows "covered (img' :: image) tri i = covered img tri i"
proof -
  have pc: "pixelCoords img' = pixelCoords img"
    by (simp add: pixelCoords_def assms(1,2))
  show ?thesis
    unfolding covered_as_filter pc
  proof (rule map_cong[OF refl])
    fix c assume "c \<in> set (filter (\<lambda>c. find_simplex tri c = int i) (pixelCoords img))"
    then have c: "c \<in> set (pixelCoords img)" and k: "find_simplex tri c = int i" by auto
    from c obtain a b where ab: "c = (int a, int b)" "a < img_width img" "b < img_height img"
      by (auto simp: pixelCoords_def)
    have "find_simplex tri (int a, int b) \<noteq> - 1" using k ab(1) by simp
    then show "pixel img' (nat (snd c)) (nat (fst c)) = pixel img (nat (snd c)) (nat (fst c))"
      using assms(3)[OF ab(2,3)] ab(1) by simp
  qed
qed

text \<open>
  C7. The result of \<open>calculateTriColors\<close> has one entry for each simplex index below the
  number of simplices; the entry of a simplex that covers no pixel is zero (black), the
  entry of any other simplex aggregates exactly the pixels located in it, and pixels whose
  point location is \<open>-1\<close> (outside the hull) influence no entry.
\<close>

theorem calculateTriColors_complete:
  "length (calculateTriColors img tri f) = simplex_count tri \<and>
   (\<forall>i < simplex_count tri.
      calculateTriColors img tri f ! i =
        (if covered img tri i = [] then (0, 0, 0)
         else (f (map chan_r (covered img tri i)) / 256,
               f (map chan_g (covered img tri i)) / 256,
               f (map chan_b (covered img tri i)) / 256))) \<and>
   (\<forall>img' :: image. img_height img' = img_height img \<and> img_width img' = img_width img \<and>
       (\<forall>a < img_width img. \<forall>b < img_height img.
           find_simplex tri (int a, int b) \<noteq> - 1 \<longrightarrow> pixel img' b a = pixel img b a)
       \<longrightarrow> calculateTriColors img' tri f = calculateTriColors img tri f)"
proof (intro conjI allI impI)
  show "length (calculateTriColors img tri f) = simplex_count tri"
    by (rule calculateTriColors_length)
next
  fix i assume "i < simplex_count tri"
  then show "calculateTriColors img tri f ! i =
        (if covered img tri i = [] then (0, 0, 0)
         else (f (map chan_r (covered img tri i)) / 256,
               f (map chan_g (covered img tri i)) / 256,
               f (map chan_b (covered img tri i)) / 256))"
    by (rule calculateTriColors_nth)
next
  fix img' :: image
  assume h: "img_height img' = img_height img \<and> img_width img' = img_width img \<and>
       (\<forall>a < img_width img. \<forall>b < img_height img.
           find_simplex tri (int a, int b) \<noteq> - 1 \<longrightarrow> pixel img' b a = pixel img b a)"
  then have cov: "covered img' tri i = covered img tri i" for i
    by (intro covered_cong) auto
  show "calculateTriColors img' tri f = calculateTriColors img tri f"
    by (rule nth_equalityI) (simp_all add: calculateTriColors_length calculateTriColors_nth cov)
qed

theorem calculateTriColors_complete_witness:
  "length (calculateTriColors
      \<lparr>img_height = 1, img_width = 2, pixel = (\<lambda>b a. if a = 0 then (10, 20, 30) else (50, 60, 70))\<rparr>
      \<lparr>find_simplex = (\<lambda>c. if c = (0, 0) then 0 else - 1), simplex_count = 2\<rparr> np_mean) = 2 \<and>
   calculateTriColors
      \<lparr>img_height = 1, img_width = 2, pixel = (\<lambda>b a. if a = 0 then (10, 20, 30) else (50, 60, 70))\<rparr>
      \<lparr>find_simplex = (\<lambda>c. if c = (0, 0) then 0 else - 1), simplex_count = 2\<rparr> np_mean ! 0
     = (10 / 256, 20 / 256, 30 / 256) \<and>
   calculateTriColors
      \<lparr>img_height = 1, img_width = 2, pixel = (\<lambda>b a. if a = 0 then (10, 20, 30) else (50, 60, 70))\<rparr>
      \<lparr>find_simplex = (\<lambda>c. if c = (0, 0) then 0 else - 1), simplex_count = 2\<rparr> np_mean ! 1
     = (0, 0, 0) \<and>
   calculateTriColors
      \<lparr>img_height = 1, img_width = 2, pixel = (\<lambda>b a. if a = 0 then (10, 20, 30) else (1, 2, 3))\<rparr>
      \<lparr>find_simplex = (\<lambda>c. if c = (0, 0) then 0 else - 1), simplex_count = 2\<rparr> np_mean
     = calculateTriColors
      \<lparr>img_height = 1, img_width = 2, pixel = (\<lambda>b a. if a = 0 then (10, 20, 30) else (50, 60, 70))\<rparr>
      \<lparr>find_simplex = (\<lambda>c. if c = (0, 0) then 0 else - 1), simplex_count = 2\<rparr> np_mean"
proof -
  let ?img = "\<lparr>img_height = 1, img_width = 2, pixel = (\<lambda>b a. if a = 0 then (10, 20, 30) else (50, 60, 70))\<rparr> :: image"
  let ?tri = "\<lparr>find_simplex = (\<lambda>c. if c = (0, 0) then 0 else - 1), simplex_count = 2\<rparr> :: triangulation"
  let ?img' = "\<lparr>img_height = 1, img_width = 2, pixel = (\<lambda>b a. if a = 0 then (10, 20, 30) else (1, 2, 3))\<rparr> :: image"
  have two: "[0..<2] = [0, Suc 0]" by (simp add: upt_rec)
  have c0: "covered ?img ?tri 0 = [(10, 20, 30)]"
    by (simp add: covered_def pixelCoords_def reshape_pixels_def two)
  have c1: "covered ?img ?tri 1 = []"
    by (simp add: covered_def pixelCoords_def reshape_pixels_def two)
  note th = calculateTriColors_complete [of ?img ?tri np_mean]
  have len: "length (calculateTriColors ?img ?tri np_mean) = 2"
    using th [THEN conjunct1] by simp
  note nth = th [THEN conjunct2, THEN conjunct1, rule_format]
  have lt: "0 < simplex_count ?tri" "1 < simplex_count ?tri" by simp_all
  have "calculateTriColors ?img ?tri np_mean ! 0 = (10 / 256, 20 / 256, 30 / 256)"
    unfolding nth [OF lt(1)] c0 by (simp add: np_mean_def chan_r_def chan_g_def chan_b_def)
  moreover have "calculateTriColors ?img ?tri np_mean ! 1 = (0, 0, 0)"
    unfolding nth [OF lt(2)] c1 by simp
  moreover have "calculateTriColors ?img' ?tri np_mean = calculateTriColors ?img ?tri np_mean"
  proof (rule th [THEN conjunct2, THEN conjunct2, rule_format])
    show "img_height ?img' = img_height ?img \<and> img_width ?img' = img_width ?img \<and>
       (\<forall>a < img_width ?img. \<forall>b < img_height ?img.
           find_simplex ?tri (int a, int b) \<noteq> - 1 \<longrightarrow> pixel ?img' b a = pixel ?img b a)"
      by auto
  qed
  ultimately show ?thesis using len by simp
qed

lemma single_simplex_any:
  assumes "0 < img_height img" "0 < img_width img" "simplex_count tri = 1"
    and "\<forall>c \<in> set (pixelCoords img). find_simplex tri c = 0"
  shows "calculateTriColors img tri f =
     [(f (map chan_r (reshape_pixels img)) / 256,
       f (map chan_g (reshape_pixels img)) / 256,
       f (map chan_b (reshape_pixels img)) / 256)]"
proof -
  have all: "filter (\<lambda>c. find_simplex tri c = int 0) (pixelCoords img) = pixelCoords img"
    using assms(4) by (simp add: filter_id_conv)
  have rp: "reshape_pixels img = map (\<lambda>c. pixel img (nat (snd c)) (nat (fst c))) (pixelCoords img)"
    by (simp add: reshape_pixels_def pixelCoords_def map_concat comp_def)
  have cov: "covered img tri 0 = reshape_pixels img"
    unfolding covered_as_filter all rp ..
  have "(0, 0) \<in> set (pixelCoords img)"
    using assms(1,2) by (auto simp: pixelCoords_def intro!: bexI[of _ 0])
  then have ne: "reshape_pixels img \<noteq> []"
    unfolding rp by auto
  have "calculateTriColors img tri f = [calculateTriColors img tri f ! 0]"
    using calculateTriColors_length[of img tri f] assms(3)
    by (cases "calculateTriColors img tri f") auto
  then show ?thesis
    using calculateTriColors_nth[of 0 tri img f] assms(3) cov ne by simp
qed

text \<open>
  C8, as the code has it. For a triangulation of a single simplex that contains every pixel
  of a non-empty image, the one colour returned by \<open>calculateTriColors\<close> is the
  per-channel mean (with \<open>np_mean\<close>) or median (with \<open>np_median\<close>) of all pixel colours,
  divided by 256.
\<close>

theorem single_simplex_mean_median:
  assumes "0 < img_height img" "0 < img_width img" "simplex_count tri = 1"
    and "\<forall>c \<in> set (pixelCoords img). find_simplex tri c = 0"
  shows "calculateTriColors img tri np_mean =
           [(np_mean (map chan_r (reshape_pixels img)) / 256,
             np_mean (map chan_g (reshape_pixels img)) / 256,
             np_mean (map chan_b (reshape_pixels img)) / 256)] \<and>
         calculateTriColors img tri np_median =
           [(np_median (map chan_r (reshape_pixels img)) / 256,
             np_median (map chan_g (reshape_pixels img)) / 256,
             np_median (map chan_b (reshape_pixels img)) / 256)]"
  using single_simplex_any[OF assms] by simp

theorem single_simplex_mean_median_witness:
  "calculateTriColors \<lparr>img_height = 1, img_width = 2,
        pixel = (\<lambda>b a. if a = 0 then (64, 0, 128) else (192, 0, 128))\<rparr>
      \<lparr>find_simplex = (\<lambda>c. 0), simplex_count = 1\<rparr> np_mean = [(1 / 2, 0, 1 / 2)] \<and>
   calculateTriColors \<lparr>img_height = 1, img_width = 2,
        pixel = (\<lambda>b a. if a = 0 then (64, 0, 128) else (192, 0, 128))\<rparr>
      \<lparr>find_simplex = (\<lambda>c. 0), simplex_count = 1\<rparr> np_median = [(1 / 2, 0, 1 / 2)]"
proof -
  let ?img = "\<lparr>img_height = 1, img_width = 2,
        pixel = (\<lambda>b a. if a = 0 then (64, 0, 128) else (192, 0, 128))\<rparr> :: image"
  let ?tri = "\<lparr>find_simplex = (\<lambda>c. 0), simplex_count = 1\<rparr> :: triangulation"
  have two: "[0..<2] = [0, Suc 0]" by (simp add: upt_rec)
  have rp: "reshape_pixels ?img = [(64, 0, 128), (192, 0, 128)]"
    by (simp add: reshape_pixels_def two)
  have a: "0 < img_height ?img" "0 < img_width ?img" "simplex_count ?tri = 1"
    "\<forall>c \<in> set (pixelCoords ?img). find_simplex ?tri c = 0" by simp_all
  note th = single_simplex_mean_median [of ?img ?tri, OF a]
  have m: "np_mean [64, 192] = 128" "np_mean [0, 0] = 0" "np_mean [128, 128] = 128"
    "np_median [64, 192] = 128" "np_median [0, 0] = 0" "np_median [128, 128] = 128"
    by (simp_all add: np_mean_def np_median_def)
  show ?thesis
    using th unfolding rp by (simp add: m chan_r_def chan_g_def chan_b_def)
qed

text \<open>
  C8 as stated fails: on a one-pixel image of colour \<open>(128, 64, 0)\<close> the returned colour is
  \<open>(1/2, 1/4, 0)\<close>, not the mean \<open>(128, 64, 0)\<close> of the pixel colours.
\<close>

theorem single_simplex_mean_counterexample:
  "calculateTriColors \<lparr>img_height = 1, img_width = 1, pixel = (\<lambda>b a. (128, 64, 0))\<rparr>
      \<lparr>find_simplex = (\<lambda>c. 0), simplex_count = 1\<rparr> np_mean
   \<noteq> [(np_mean (map chan_r (reshape_pixels \<lparr>img_height = 1, img_width = 1, pixel = (\<lambda>b a. (128, 64, 0))\<rparr>)),
       np_mean (map chan_g (reshape_pixels \<lparr>img_height = 1, img_width = 1, pixel = (\<lambda>b a. (128, 64, 0))\<rparr>)),
       np_mean (map chan_b (reshape_pixels \<lparr>img_height = 1, img_width = 1, pixel = (\<lambda>b a. (128, 64, 0))\<rparr>)))]"
  by (simp add: calculateTriColors_def reindex_def groupby_aggregate_def pixelCoords_def
      reshape_pixels_def np_mean_def chan_r_def chan_g_def chan_b_def)

section \<open>The random source\<close>

lemma valid_rng_shd: "valid_rng t \<Longrightarrow> 0 \<le> shd t \<and> shd t < 1"
  by (cases t) (simp add: valid_rng_def)

lemma valid_rng_stl: "valid_rng t \<Longrightarrow> valid_rng (stl t)"
  by (cases t) (simp add: valid_rng_def)

lemma valid_rng_sconst: "valid_rng (sconst 0)"
  by (simp add: valid_rng_def stream.pred_set)

lemma sconst_unfold: "sconst x = x ## sconst x"
  by (rule stream.expand) simp

lemma valid_rng_SCons: "valid_rng (u ## t) \<longleftrightarrow> 0 \<le> u \<and> u < 1 \<and> valid_rng t"
  by (simp add: valid_rng_def)

section \<open>Truncation and candidate points\<close>

lemma py_int_nonneg: "0 \<le> r \<Longrightarrow> py_int r = \<lfloor>r\<rfloor>"
  by (simp add: py_int_def)

lemma py_int_close: "\<bar>r - of_int (py_int r)\<bar> < 1"
  unfolding py_int_def by (auto simp: abs_if) linarith+

lemma offset_norm_lower:
  fixes u v :: real
  shows "sqrt (u\<^sup>2 + v\<^sup>2) - sqrt 2 < sqrt ((of_int (py_int u))\<^sup>2 + (of_int (py_int v))\<^sup>2)"
proof -
  let ?a = "real_of_int (py_int u)" and ?b = "real_of_int (py_int v)"
  have du: "(u - ?a)\<^sup>2 < 1" using py_int_close[of u] by (simp add: abs_square_less_1)
  have dv: "(v - ?b)\<^sup>2 < 1" using py_int_close[of v] by (simp add: abs_square_less_1)
  have "(u - ?a)\<^sup>2 + (v - ?b)\<^sup>2 < 2"
    using du dv by linarith
  then have s2: "sqrt ((u - ?a)\<^sup>2 + (v - ?b)\<^sup>2) < sqrt 2"
    by (simp only: real_sqrt_less_iff)
  have tri: "sqrt (u\<^sup>2 + v\<^sup>2) \<le> sqrt (?a\<^sup>2 + ?b\<^sup>2) + sqrt ((u - ?a)\<^sup>2 + (v - ?b)\<^sup>2)"
    using real_sqrt_sum_squares_triangle_ineq[of ?a "u - ?a" ?b "v - ?b"] by simp
  show ?thesis using s2 tri by linarith
qed

lemma polar_norm:
  fixes r a :: real
  assumes "0 \<le> r"
  shows "sqrt ((r * cos a)\<^sup>2 + (r * sin a)\<^sup>2) = r"
proof -
  have "(r * cos a)\<^sup>2 + (r * sin a)\<^sup>2 = r\<^sup>2 * ((sin a)\<^sup>2 + (cos a)\<^sup>2)"
    by (simp only: power_mult_distrib distrib_left add.commute)
  also have "\<dots> = r\<^sup>2" by simp
  finally show ?thesis using assms by simp
qed

text \<open>
  C5, as the code has it. For every parent point, every \<open>minDist > 0\<close> and every draw of the
  two random numbers, the candidate of \<open>generateRandomPointAround\<close> lies at Euclidean
  distance greater than \<open>minDist - sqrt 2\<close> from its parent: the offset of length at least
  \<open>minDist\<close> loses less than one pixel on each axis when it is truncated.
\<close>

theorem candidate_distance:
  assumes "0 < m" "valid_rng t"
  shows "m - sqrt 2 < distance p (fst (generateRandomPointAround p m t))"
proof -
  define r1 where "r1 = shd t"
  define r2 where "r2 = shd (stl t)"
  define radius where "radius = m * (1 + r1)"
  define angle where "angle = 2 * PI * r2"
  have r1: "0 \<le> r1" using valid_rng_shd[OF assms(2)] by (simp add: r1_def)
  have rad: "m \<le> radius"
    using assms(1) r1 by (simp add: radius_def)
  then have rad0: "0 \<le> radius" using assms(1) by simp
  have d: "distance p (fst (generateRandomPointAround p m t)) =
      sqrt ((of_int (py_int (radius * cos angle)))\<^sup>2 + (of_int (py_int (radius * sin angle)))\<^sup>2)"
    by (simp add: distance_def generateRandomPointAround_def random_random_def mkPoint_def Let_def
        radius_def angle_def r1_def r2_def)
  have "radius - sqrt 2 < sqrt ((of_int (py_int (radius * cos angle)))\<^sup>2 + (of_int (py_int (radius * sin angle)))\<^sup>2)"
    using offset_norm_lower[of "radius * cos angle" "radius * sin angle"] polar_norm[OF rad0, of angle]
    by simp
  then show ?thesis using rad d by simp
qed

theorem candidate_distance_witness:
  "(0::real) < 37 / 2 \<and> valid_rng (sconst 0) \<and>
   37 / 2 - sqrt 2 < distance (mkPoint 0 0) (fst (generateRandomPointAround (mkPoint 0 0) (37 / 2) (sconst 0)))"
proof -
  have a: "(0::real) < 37 / 2" by simp
  show ?thesis
    using a valid_rng_sconst candidate_distance [OF a valid_rng_sconst, of "mkPoint 0 0"] by simp
qed

text \<open>
  C5 as stated fails: with \<open>minDist = 18.5\<close> and both random numbers 0 the candidate is the
  parent moved by \<open>(18, 0)\<close>, at distance 18.
\<close>

theorem candidate_distance_counterexample:
  "distance (mkPoint 0 0) (fst (generateRandomPointAround (mkPoint 0 0) (37 / 2) (sconst 0))) < 37 / 2"
  by (simp add: generateRandomPointAround_def random_random_def mkPoint_def py_int_def distance_def)

section \<open>Evaluating grid coordinates\<close>

text \<open>
  With \<open>cellSize = m / sqrt 2\<close>, the cell of a non-negative coordinate \<open>a\<close> is \<open>k\<close>
  exactly when \<open>(k m)\<^sup>2 \<le> 2 a\<^sup>2 < ((k + 1) m)\<^sup>2\<close>, which is decided on numerals.
\<close>

lemma sqrt_two_sq: "0 \<le> a \<Longrightarrow> sqrt (2 * a\<^sup>2) = a * sqrt 2"
  by (simp add: real_sqrt_mult)

lemma py_int_div_cell:
  assumes "0 \<le> a" "0 < m" "0 \<le> k"
    and "(of_int k * m)\<^sup>2 \<le> 2 * (of_int a)\<^sup>2"
    and "2 * (of_int a)\<^sup>2 < ((of_int k + 1) * m)\<^sup>2"
  shows "py_int (of_int a / (m / sqrt 2)) = k"
proof -
  let ?r = "of_int a * sqrt 2 / m"
  have r: "of_int a / (m / sqrt 2) = ?r" by simp
  have s: "sqrt (2 * (of_int a)\<^sup>2) = of_int a * sqrt 2"
    using assms(1) by (simp add: sqrt_two_sq)
  have "sqrt ((of_int k * m)\<^sup>2) \<le> sqrt (2 * (of_int a)\<^sup>2)"
    using assms(4) by (simp only: real_sqrt_le_iff)
  then have lo: "of_int k * m \<le> of_int a * sqrt 2"
    using assms(2,3) s by simp
  have "sqrt (2 * (of_int a)\<^sup>2) < sqrt (((of_int k + 1) * m)\<^sup>2)"
    using assms(5) by (simp only: real_sqrt_less_iff)
  then have hi: "of_int a * sqrt 2 < (of_int k + 1) * m"
    using assms(2,3) s by simp
  have "of_int k \<le> ?r" using lo assms(2) by (simp add: pos_le_divide_eq)
  moreover have "?r < of_int k + 1" using hi assms(2) by (simp add: pos_divide_less_eq)
  ultimately have "\<lfloor>?r\<rfloor> = k" by (simp add: floor_unique)
  moreover have "0 \<le> ?r" using assms(1,2) by simp
  ultimately show ?thesis unfolding r py_int_def by simp
qed

lemma ceiling_div_cell:
  assumes "0 \<le> a" "0 < m" "0 \<le> k"
    and "(of_int k * m)\<^sup>2 < 2 * (of_int a)\<^sup>2"
    and "2 * (of_int a)\<^sup>2 \<le> ((of_int k + 1) * m)\<^sup>2"
  shows "\<lceil>of_int a / (m / sqrt 2)\<rceil> = k + 1"
proof -
  let ?r = "of_int a * sqrt 2 / m"
  have r: "of_int a / (m / sqrt 2) = ?r" by simp
  have s: "sqrt (2 * (of_int a)\<^sup>2) = of_int a * sqrt 2"
    using assms(1) by (simp add: sqrt_two_sq)
  have "sqrt ((of_int k * m)\<^sup>2) < sqrt (2 * (of_int a)\<^sup>2)"
    using assms(4) by (simp only: real_sqrt_less_iff)
  then have lo: "of_int k * m < of_int a * sqrt 2"
    using assms(2,3) s by simp
  have "sqrt (2 * (of_int a)\<^sup>2) \<le> sqrt (((of_int k + 1) * m)\<^sup>2)"
    using assms(5) by (simp only: real_sqrt_le_iff)
  then have hi: "of_int a * sqrt 2 \<le> (of_int k + 1) * m"
    using assms(2,3) s by simp
  have "of_int k < ?r" using lo assms(2) by (simp add: pos_less_divide_eq)
  moreover have "?r \<le> of_int k + 1" using hi assms(2) by (simp add: pos_divide_le_eq)
  ultimately have "\<lceil>?r\<rceil> = k + 1" by (intro ceiling_unique) simp_all
  then show ?thesis unfolding r .
qed

lemma coords_18:
  assumes "cellSize g = 18 / sqrt 2" "0 \<le> pt_x p" "0 \<le> pt_y p" "0 \<le> kx" "0 \<le> ky"
    and "(kx * 18)\<^sup>2 \<le> 2 * (pt_x p)\<^sup>2" "2 * (pt_x p)\<^sup>2 < ((kx + 1) * 18)\<^sup>2"
    and "(ky * 18)\<^sup>2 \<le> 2 * (pt_y p)\<^sup>2" "2 * (pt_y p)\<^sup>2 < ((ky + 1) * 18)\<^sup>2"
  shows "getGridCoordinates g p = mkPoint kx ky"
proof -
  have cell: "py_int (of_int a / (18 / sqrt 2)) = k"
    if "0 \<le> a" "0 \<le> k" "(k * 18)\<^sup>2 \<le> 2 * a\<^sup>2" "2 * a\<^sup>2 < ((k + 1) * 18)\<^sup>2" for a k :: int
  proof (rule py_int_div_cell)
    have "real_of_int ((k * 18)\<^sup>2) \<le> real_of_int (2 * a\<^sup>2)"
      using that(3) by (simp only: of_int_le_iff)
    then show "(real_of_int k * 18)\<^sup>2 \<le> 2 * (real_of_int a)\<^sup>2" by simp
    have "real_of_int (2 * a\<^sup>2) < real_of_int (((k + 1) * 18)\<^sup>2)"
      using that(4) by (simp only: of_int_less_iff)
    then show "2 * (real_of_int a)\<^sup>2 < ((real_of_int k + 1) * 18)\<^sup>2" by simp
  qed (use that in simp_all)
  show ?thesis
    unfolding getGridCoordinates_def assms(1)
    using cell[OF assms(2,4,6,7)] cell[OF assms(3,5,8,9)] by simp
qed

lemma Grid_init_18: "Grid_init 18 100 100 = Inr ex_grid"
proof -
  have "\<lceil>of_int 100 / ((18::real) / sqrt 2)\<rceil> = 7 + 1"
    by (rule ceiling_div_cell) simp_all
  then have c: "\<lceil>50 * sqrt 2 / 9\<rceil> = (8::int)" by simp
  show ?thesis by (simp add: Grid_init_def ex_grid_def Let_def c)
qed

lemma c_32_40: "cellSize g = 18 / sqrt 2 \<Longrightarrow>
    getGridCoordinates g \<lparr>pt_x = 32, pt_y = 40, priority = pr\<rparr> = mkPoint 2 3"
  by (rule coords_18) simp_all

lemma c_64_40: "cellSize g = 18 / sqrt 2 \<Longrightarrow>
    getGridCoordinates g \<lparr>pt_x = 64, pt_y = 40, priority = pr\<rparr> = mkPoint 5 3"
  by (rule coords_18) simp_all

lemma c_50_40: "cellSize g = 18 / sqrt 2 \<Longrightarrow>
    getGridCoordinates g \<lparr>pt_x = 50, pt_y = 40, priority = pr\<rparr> = mkPoint 3 3"
  by (rule coords_18) simp_all

lemma c_100_100: "cellSize g = 18 / sqrt 2 \<Longrightarrow>
    getGridCoordinates g \<lparr>pt_x = 100, pt_y = 100, priority = pr\<rparr> = mkPoint 7 7"
  by (rule coords_18) simp_all

section \<open>A run of the uniform sampler\<close>

lemma ex_gen_fields:
  "gen_minDist (ex_gen pc) = 18" "imageWidth (ex_gen pc) = 100" "imageHeight (ex_gen pc) = 100"
  "edgeThreshold (ex_gen pc) = 18" "newPointsToGenerate (ex_gen pc) = 2" "pointCount (ex_gen pc) = pc"
  "sampledList (ex_gen pc) = []" "processingList (ex_gen pc) = []" "gen_grid (ex_gen pc) = ex_grid"
  by (simp_all add: ex_gen_def BlueNoiseGenerator_init_def ex_grid_def)

lemma ex_seed:
  "seed (ex_gen pc) (32 / 101 ## 40 / 101 ## t) =
     Inr ((ex_gen pc)\<lparr>sampledList := [(32, 40)], processingList := [mkPoint 32 40],
            gen_grid := ex_grid\<lparr>grid := (replicate 64 None)[26 := Some (mkPoint 32 40)]\<rparr>\<rparr>, t)"
  by (simp add: seed_def startingPoint_def random_randint_def ex_gen_fields
      ex_grid_def Point_list_def mkPoint_def insert_point_def getGridIndex_def c_32_40
      py_setitem_def py_index_def)

lemma ex_pop:
  "popRandom ((ex_gen pc)\<lparr>sampledList := [(32, 40)], processingList := [mkPoint 32 40],
       gen_grid := ex_grid\<lparr>grid := (replicate 64 None)[26 := Some (mkPoint 32 40)]\<rparr>\<rparr>) (0 ## t) =
     Inr (mkPoint 32 40,
          (ex_gen pc)\<lparr>sampledList := [(32, 40)], processingList := [],
             gen_grid := ex_grid\<lparr>grid := (replicate 64 None)[26 := Some (mkPoint 32 40)]\<rparr>\<rparr>, t)"
  by (simp add: popRandom_def random_randint_def py_pop_def py_index_def)

lemma ex_candidate_1:
  "generateRandomPointAround (mkPoint 32 40) 18 (4 / 5 ## 0 ## t) = (mkPoint 64 40, t)"
  by (simp add: generateRandomPointAround_def random_random_def mkPoint_def py_int_def)

lemma ex_candidate_2:
  "generateRandomPointAround (mkPoint 32 40) 18 (0 ## 0 ## t) = (mkPoint 50 40, t)"
  by (simp add: generateRandomPointAround_def random_random_def mkPoint_def py_int_def)

lemma ex_check_1:
  "\<not> checkInNeighborhood (ex_grid\<lparr>grid := (replicate 64 None)[26 := Some (mkPoint 32 40)]\<rparr>)
        (mkPoint 64 40)"
  by (simp add: checkInNeighborhood_def mkPoint_def c_64_40 ex_grid_def cellHit_def
      getGridIndex_def upto_rec1 distance_def)

lemma ex_check_2:
  "\<not> checkInNeighborhood
        (ex_grid\<lparr>grid := (replicate 64 None)[26 := Some (mkPoint 32 40), 29 := Some (mkPoint 64 40)]\<rparr>)
        (mkPoint 50 40)"
  by (simp add: checkInNeighborhood_def mkPoint_def c_50_40 ex_grid_def cellHit_def
      getGridIndex_def upto_rec1 distance_def)

lemma ex_batch:
  "generate_batch 2 (mkPoint 32 40)
      ((ex_gen pc)\<lparr>sampledList := [(32, 40)], processingList := [],
         gen_grid := ex_grid\<lparr>grid := (replicate 64 None)[26 := Some (mkPoint 32 40)]\<rparr>\<rparr>)
      (4 / 5 ## 0 ## 0 ## 0 ## t) = Inr (ex_final pc, t)"
proof -
  have a1: "accept ((ex_gen pc)\<lparr>sampledList := [(32, 40)], processingList := [],
          gen_grid := ex_grid\<lparr>grid := (replicate 64 None)[26 := Some (mkPoint 32 40)]\<rparr>\<rparr>) (mkPoint 64 40)
     = Inr ((ex_gen pc)\<lparr>sampledList := [(32, 40), (64, 40)], processingList := [mkPoint 64 40],
          gen_grid := ex_grid\<lparr>grid := (replicate 64 None)[26 := Some (mkPoint 32 40), 29 := Some (mkPoint 64 40)]\<rparr>\<rparr>)"
    by (simp add: accept_def insert_point_def getGridIndex_def mkPoint_def c_64_40 ex_grid_def
        py_setitem_def py_index_def Point_list_def)
  have a2: "accept ((ex_gen pc)\<lparr>sampledList := [(32, 40), (64, 40)], processingList := [mkPoint 64 40],
          gen_grid := ex_grid\<lparr>grid := (replicate 64 None)[26 := Some (mkPoint 32 40), 29 := Some (mkPoint 64 40)]\<rparr>\<rparr>) (mkPoint 50 40)
     = Inr (ex_final pc)"
    by (simp add: accept_def insert_point_def getGridIndex_def mkPoint_def c_50_40 ex_grid_def
        py_setitem_def py_index_def Point_list_def ex_final_def)
  have b1: "inBounds ((ex_gen pc)\<lparr>sampledList := sl, processingList := pl, gen_grid := gg\<rparr>) (mkPoint 64 40)" for sl pl gg
    by (simp add: inBounds_def ex_gen_fields mkPoint_def)
  have b2: "inBounds ((ex_gen pc)\<lparr>sampledList := sl, processingList := pl, gen_grid := gg\<rparr>) (mkPoint 50 40)" for sl pl gg
    by (simp add: inBounds_def ex_gen_fields mkPoint_def)
  have two: "(2::nat) = Suc (Suc 0)" by simp
  show ?thesis
    unfolding two
    by (simp add: ex_gen_fields ex_candidate_1 ex_candidate_2 b1 b2 ex_check_1 ex_check_2 a1 a2)
qed

lemma ex_main:
  assumes "1 < pc" "pc \<le> 3"
  shows "generate_main (ex_gen pc) (32 / 101 ## 40 / 101 ## 0 ## 4 / 5 ## 0 ## 0 ## 0 ## t)
           = Some (Inr (ex_final pc, t))"
proof -
  have l3: "generate_loop (ex_final pc) t = Some (Inr (ex_final pc, t))"
    using assms by (subst generate_loop.simps) (simp add: ex_final_def ex_gen_fields)
  show ?thesis
    unfolding generate_main_def ex_seed
    apply simp
    apply (subst generate_loop.simps)
    using assms apply (simp add: ex_pop ex_gen_fields ex_batch l3)
    done
qed

lemma ex_boundary:
  "generateBoundary (ex_final pc) (sconst 0) =
     Some (Inr ((ex_final pc)\<lparr>sampledList :=
        [(32, 40), (64, 40), (50, 40),
         (0, 0), (0, 99), (0, 0), (99, 0), (18, 0), (18, 99), (0, 18), (99, 18),
         (36, 0), (36, 99), (0, 36), (99, 36), (54, 0), (54, 99), (0, 54), (99, 54),
         (72, 0), (72, 99), (0, 72), (99, 72), (90, 0), (90, 99), (0, 90), (99, 90),
         (99, 0), (99, 99)]\<rparr>, sconst 0))"
  by (simp add: generateBoundary_def ex_final_def ex_gen_def BlueNoiseGenerator_init_def
      boundary_loop.simps boundary_deltas_def random_uniform_def boundary_points_def ex_grid_def)

text \<open>
  C1 on the code. Image 100 by 100, \<open>minDist = 18\<close>, target count 3, two candidates per
  step; the random source yields the seed \<open>(32, 40)\<close> and, around it, the candidates
  \<open>(64, 40)\<close> and \<open>(50, 40)\<close>. Both are accepted: \<open>(64, 40)\<close> lies two cell columns to the
  right of \<open>(50, 40)\<close>, and the scan of \<open>checkInNeighborhood\<close> stops one column short of
  it. The returned list starts with the three sampled points, two of them only 14 apart;
  the 26 points after them are the boundary points.
\<close>

theorem generate_min_separation_broken:
  "Grid_init 18 100 100 = Inr ex_grid \<and>
   valid_rng (32 / 101 ## 40 / 101 ## 0 ## 4 / 5 ## sconst 0) \<and>
   generate (BlueNoiseGenerator_init 3 100 100 ex_grid 18 2)
       (32 / 101 ## 40 / 101 ## 0 ## 4 / 5 ## sconst 0) =
     Some (Inr ([(32, 40), (64, 40), (50, 40)] @
        [(0, 0), (0, 99), (0, 0), (99, 0), (18, 0), (18, 99), (0, 18), (99, 18),
         (36, 0), (36, 99), (0, 36), (99, 36), (54, 0), (54, 99), (0, 54), (99, 54),
         (72, 0), (72, 99), (0, 72), (99, 72), (90, 0), (90, 99), (0, 90), (99, 90),
         (99, 0), (99, 99)])) \<and>
   distance (mkPoint 64 40) (mkPoint 50 40) = 14"
proof -
  have t: "32 / 101 ## 40 / 101 ## 0 ## 4 / 5 ## sconst (0::real)
      = 32 / 101 ## 40 / 101 ## 0 ## 4 / 5 ## 0 ## 0 ## 0 ## sconst 0"
    by (subst sconst_unfold, subst sconst_unfold, subst sconst_unfold) (rule refl)
  have m: "generate_main (ex_gen 3) (32 / 101 ## 40 / 101 ## 0 ## 4 / 5 ## sconst 0)
      = Some (Inr (ex_final 3, sconst 0))"
    unfolding t by (rule ex_main) simp_all
  have g: "generate (ex_gen 3) (32 / 101 ## 40 / 101 ## 0 ## 4 / 5 ## sconst 0) =
     Some (Inr ([(32, 40), (64, 40), (50, 40)] @
        [(0, 0), (0, 99), (0, 0), (99, 0), (18, 0), (18, 99), (0, 18), (99, 18),
         (36, 0), (36, 99), (0, 36), (99, 36), (54, 0), (54, 99), (0, 54), (99, 54),
         (72, 0), (72, 99), (0, 72), (99, 72), (90, 0), (90, 99), (0, 90), (99, 90),
         (99, 0), (99, 99)]))"
    unfolding generate_def m by (simp add: ex_boundary)
  have v: "valid_rng (32 / 101 ## 40 / 101 ## 0 ## 4 / 5 ## sconst 0)"
    by (simp add: valid_rng_SCons valid_rng_sconst)
  have d: "distance (mkPoint 64 40) (mkPoint 50 40) = 14"
    by (simp add: distance_def mkPoint_def)
  show ?thesis
    using Grid_init_18 v g d unfolding ex_gen_def by blast
qed

text \<open>
  C9 on the code. \<^verbatim>\<open>random.randint(0, self.imageWidth)\<close> includes its upper end: on the
  100 by 100 image a valid random source yields the seed \<open>(100, 100)\<close>, which is added to
  the three structures but lies outside \<open>0 \<le> x < 100\<close>, \<open>0 \<le> y < 100\<close>. On a 2 by 2
  image with \<open>minDist = sqrt 2\<close> (cells of size 1) the seed \<open>(2, 2)\<close> has grid index 6 in
  a grid of 4 slots, and the insertion raises IndexError.
\<close>

theorem seed_outside_image:
  "valid_rng (100 / 101 ## 100 / 101 ## sconst 0) \<and>
   seed (BlueNoiseGenerator_init 3 100 100 ex_grid 18 2) (100 / 101 ## 100 / 101 ## sconst 0) =
     Inr ((BlueNoiseGenerator_init 3 100 100 ex_grid 18 2)
            \<lparr>sampledList := [(100, 100)], processingList := [mkPoint 100 100],
             gen_grid := ex_grid\<lparr>grid := (replicate 64 None)[63 := Some (mkPoint 100 100)]\<rparr>\<rparr>,
          sconst 0) \<and>
   imageWidth (BlueNoiseGenerator_init 3 100 100 ex_grid 18 2) = 100 \<and>
   imageHeight (BlueNoiseGenerator_init 3 100 100 ex_grid 18 2) = 100 \<and>
   valid_rng (2 / 3 ## 2 / 3 ## sconst 0) \<and>
   Grid_init (sqrt 2) 2 2 =
     Inr \<lparr>cellSize = 1, minDist = sqrt 2, width = 2, height = 2, grid = replicate 4 None\<rparr> \<and>
   seed (BlueNoiseGenerator_init 3 2 2
           \<lparr>cellSize = 1, minDist = sqrt 2, width = 2, height = 2, grid = replicate 4 None\<rparr>
           (sqrt 2) 2)
        (2 / 3 ## 2 / 3 ## sconst 0) = Inl IndexError"
proof -
  have a: "valid_rng (100 / 101 ## 100 / 101 ## sconst 0) \<and>
   seed (BlueNoiseGenerator_init 3 100 100 ex_grid 18 2) (100 / 101 ## 100 / 101 ## sconst 0) =
     Inr ((BlueNoiseGenerator_init 3 100 100 ex_grid 18 2)
            \<lparr>sampledList := [(100, 100)], processingList := [mkPoint 100 100],
             gen_grid := ex_grid\<lparr>grid := (replicate 64 None)[63 := Some (mkPoint 100 100)]\<rparr>\<rparr>,
          sconst 0) \<and>
   imageWidth (BlueNoiseGenerator_init 3 100 100 ex_grid 18 2) = 100 \<and>
   imageHeight (BlueNoiseGenerator_init 3 100 100 ex_grid 18 2) = 100"
    by (simp add: valid_rng_SCons valid_rng_sconst seed_def startingPoint_def random_randint_def
        BlueNoiseGenerator_init_def ex_grid_def Point_list_def mkPoint_def insert_point_def
        getGridIndex_def c_100_100 py_setitem_def py_index_def)
  have v: "valid_rng (2 / 3 ## 2 / 3 ## sconst 0)"
    by (simp add: valid_rng_SCons valid_rng_sconst)
  have g: "Grid_init (sqrt 2) 2 2 =
     Inr \<lparr>cellSize = 1, minDist = sqrt 2, width = 2, height = 2, grid = replicate 4 None\<rparr>"
    by (simp add: Grid_init_def)
  have s: "seed (BlueNoiseGenerator_init 3 2 2
           \<lparr>cellSize = 1, minDist = sqrt 2, width = 2, height = 2, grid = replicate 4 None\<rparr>
           (sqrt 2) 2)
        (2 / 3 ## 2 / 3 ## sconst 0) = Inl IndexError"
    by (simp add: seed_def startingPoint_def random_randint_def BlueNoiseGenerator_init_def
        Point_list_def mkPoint_def insert_point_def getGridIndex_def getGridCoordinates_def
        py_int_def py_setitem_def py_index_def)
  from a v g s show ?thesis by blast
qed

section \<open>What the steps of the samplers change\<close>

lemma py_index_Inr: "py_index xs i = Inr j \<Longrightarrow> j < length xs"
  by (auto simp: py_index_def split: if_splits)

lemma py_index_nonneg: "0 \<le> i \<Longrightarrow> py_index xs i = Inr j \<Longrightarrow> j = nat i"
  by (auto simp: py_index_def split: if_splits)

lemma py_pop_length: "py_pop xs i = Inr (a, rest) \<Longrightarrow> Suc (length rest) = length xs"
  by (auto simp: py_pop_def split: sum.splits dest!: py_index_Inr)

lemma insert_point_fields:
  assumes "insert_point g p = Inr g'"
  shows "cellSize g' = cellSize g" "minDist g' = minDist g" "width g' = width g"
    "height g' = height g" "length (grid g') = length (grid g)"
  using assms by (auto simp: insert_point_def py_setitem_def split: sum.splits)

lemma accept_Inr:
  assumes "accept s p = Inr s'"
  shows "sampledList s' = sampledList s @ [Point_list p]"
    and "processingList s' = processingList s @ [p]"
    and "insert_point (gen_grid s) p = Inr (gen_grid s')"
    and "pointCount s' = pointCount s"
    and "newPointsToGenerate s' = newPointsToGenerate s"
    and "imageHeight s' = imageHeight s"
    and "imageWidth s' = imageWidth s"
    and "gen_minDist s' = gen_minDist s"
    and "edgeThreshold s' = edgeThreshold s"
  using assms by (auto simp: accept_def Let_def split: sum.splits)

lemma popRandom_Inr:
  assumes "popRandom s t = Inr (rp, s', t')"
  shows "sampledList s' = sampledList s"
    and "Suc (length (processingList s')) = length (processingList s)"
    and "gen_grid s' = gen_grid s"
    and "pointCount s' = pointCount s"
    and "newPointsToGenerate s' = newPointsToGenerate s"
    and "imageHeight s' = imageHeight s"
    and "imageWidth s' = imageWidth s"
    and "gen_minDist s' = gen_minDist s"
    and "edgeThreshold s' = edgeThreshold s"
    and "t' = stl t"
  using assms
  by (auto simp: popRandom_def random_randint_def Let_def split: sum.splits dest: py_pop_length)

lemma seed_Inr:
  assumes "seed s t = Inr (s', t')"
  shows "sampledList s' = sampledList s @ [Point_list (fst (startingPoint s t))]"
    and "processingList s' = processingList s @ [fst (startingPoint s t)]"
    and "insert_point (gen_grid s) (fst (startingPoint s t)) = Inr (gen_grid s')"
    and "pointCount s' = pointCount s"
    and "newPointsToGenerate s' = newPointsToGenerate s"
    and "imageHeight s' = imageHeight s"
    and "imageWidth s' = imageWidth s"
    and "gen_minDist s' = gen_minDist s"
    and "edgeThreshold s' = edgeThreshold s"
    and "t' = stl (stl t)"
  using assms
  by (auto simp: seed_def startingPoint_def random_randint_def Let_def split: sum.splits prod.splits)

lemma generateRandomPointAround_rng: "snd (generateRandomPointAround p m t) = stl (stl t)"
  by (simp add: generateRandomPointAround_def random_random_def Let_def)

lemma generate_batch_frame:
  "generate_batch n rp s t = Inr (s', t') \<Longrightarrow>
     length (sampledList s') \<le> length (sampledList s) + n \<and>
     pointCount s' = pointCount s \<and> newPointsToGenerate s' = newPointsToGenerate s \<and>
     imageHeight s' = imageHeight s \<and> imageWidth s' = imageWidth s \<and>
     gen_minDist s' = gen_minDist s \<and> edgeThreshold s' = edgeThreshold s"
proof (induction n arbitrary: s t)
  case 0
  then show ?case by simp
next
  case (Suc n)
  obtain np t1 where g: "generateRandomPointAround rp (gen_minDist s) t = (np, t1)"
    by (cases "generateRandomPointAround rp (gen_minDist s) t")
  show ?case
  proof (cases "inBounds s np \<and> \<not> checkInNeighborhood (gen_grid s) np")
    case True
    with Suc.prems g obtain s1 where a: "accept s np = Inr s1"
      and r: "generate_batch n rp s1 t1 = Inr (s', t')"
      by (auto split: sum.splits)
    from Suc.IH[OF r] accept_Inr[OF a] show ?thesis by simp
  next
    case False
    with Suc.prems g have r: "generate_batch n rp s t1 = Inr (s', t')"
      by (auto split: sum.splits)
    from Suc.IH[OF r] show ?thesis by simp
  qed
qed

lemma siftdown_loop_length: "length (siftdown_loop h s n p) = length h"
  by (induct h s n p rule: siftdown_loop.induct)
     (subst siftdown_loop.simps, simp add: Let_def)

lemma siftup_loop_length: "length (fst (siftup_loop h e p)) = length h"
  by (induct h e p rule: siftup_loop.induct)
     (subst siftup_loop.simps, simp add: Let_def)

lemma siftup_length: "length (siftup h p) = length h"
  using siftup_loop_length[of h "length h" p]
  by (simp add: siftup_def siftdown_def siftdown_loop_length Let_def case_prod_beta)

lemma heappush_length: "length (heappush h x) = Suc (length h)"
  by (simp add: heappush_def siftdown_def siftdown_loop_length)

lemma heappop_Inr:
  assumes "heappop q = Inr (x, q1)"
  shows "length q = Suc (length q1)"
proof -
  from assms have "q \<noteq> []" by (auto simp: heappop_def split: if_splits)
  then obtain ys y where q: "q = ys @ [y]" by (cases q rule: rev_cases) auto
  with assms show ?thesis
    by (auto simp: heappop_def Let_def siftup_length split: if_splits)
qed

lemma heappop_nonempty: "q \<noteq> [] \<Longrightarrow> \<exists>x q1. heappop q = Inr (x, q1)"
  by (simp add: heappop_def Let_def)

lemma drain_cases:
  assumes "drain s q found = Inr (s', q')"
  obtains (stop) "q = [] \<or> found" "s' = s" "q' = q"
    | (reject) p q1 where "q \<noteq> []" "\<not> found" "heappop q = Inr (p, q1)"
        "checkInNeighborhood (gen_grid s) p" "drain s q1 False = Inr (s', q')"
    | (take) p q1 s1 where "q \<noteq> []" "\<not> found" "heappop q = Inr (p, q1)"
        "\<not> checkInNeighborhood (gen_grid s) p" "accept s p = Inr s1"
        "drain s1 q1 True = Inr (s', q')"
proof (cases "q \<noteq> [] \<and> \<not> found")
  case False
  with assms have "s' = s" "q' = q" by (simp_all add: drain.simps)
  with False stop show ?thesis by blast
next
  case True
  then obtain p q1 where h: "heappop q = Inr (p, q1)"
    using heappop_nonempty by blast
  show ?thesis
  proof (cases "checkInNeighborhood (gen_grid s) p")
    case c: True
    with assms True h have "drain s q1 False = Inr (s', q')"
      by (subst (asm) drain.simps) simp
    with True h c reject show ?thesis by blast
  next
    case c: False
    with assms True h obtain s1 where "accept s p = Inr s1" "drain s1 q1 True = Inr (s', q')"
      by (subst (asm) drain.simps) (auto split: sum.splits)
    with True h c take show ?thesis by blast
  qed
qed

lemma drain_frame:
  "drain s q found = Inr (s', q') \<Longrightarrow>
     length (sampledList s') \<le> length (sampledList s) + (if found then 0 else 1) \<and>
     pointCount s' = pointCount s \<and> newPointsToGenerate s' = newPointsToGenerate s \<and>
     imageHeight s' = imageHeight s \<and> imageWidth s' = imageWidth s \<and>
     gen_minDist s' = gen_minDist s \<and> edgeThreshold s' = edgeThreshold s"
proof (induction "length q" arbitrary: s q found s' q' rule: less_induct)
  case less
  from less.prems show ?case
  proof (cases rule: drain_cases)
    case stop
    then show ?thesis by simp
  next
    case (reject p q1)
    from heappop_Inr[OF reject(3)] have "length q1 < length q" by simp
    from less.hyps[OF this reject(5)] reject(2) show ?thesis by simp
  next
    case (take p q1 s1)
    from heappop_Inr[OF take(3)] have "length q1 < length q" by simp
    from less.hyps[OF this take(6)] accept_Inr[OF take(5)] take(2) show ?thesis by simp
  qed
qed

lemma weighted_step_frame:
  assumes "weighted_step s w q t = Inr (s', q', t')"
  shows "length (sampledList s') \<le> length (sampledList s) + 1 \<and>
     pointCount s' = pointCount s \<and> newPointsToGenerate s' = newPointsToGenerate s \<and>
     imageHeight s' = imageHeight s \<and> imageWidth s' = imageWidth s \<and>
     gen_minDist s' = gen_minDist s \<and> edgeThreshold s' = edgeThreshold s"
proof -
  from assms obtain rp s1 t1 q1 where p: "popRandom s t = Inr (rp, s1, t1)"
    and d: "drain s1 q1 False = Inr (s', q')"
    by (auto simp: weighted_step_def split: sum.splits)
  from drain_frame[OF d] popRandom_Inr[OF p] show ?thesis by simp
qed

section \<open>The number of sampled points\<close>

lemma generate_loop_bound:
  assumes "generate_loop s t = Some r"
  shows "\<forall>s' t'. r = Inr (s', t') \<longrightarrow>
     int (length (sampledList s)) \<le> max 1 (pointCount s - 1 + newPointsToGenerate s) \<longrightarrow>
     int (length (sampledList s')) \<le> max 1 (pointCount s - 1 + newPointsToGenerate s)"
proof (induct rule: generate_loop.raw_induct [OF _ assms])
  case (1 loop self t y)
  show ?case
  proof (intro allI impI)
    fix s' t'
    assume y: "y = Inr (s', t')"
      and bnd: "int (length (sampledList self)) \<le> max 1 (pointCount self - 1 + newPointsToGenerate self)"
    show "int (length (sampledList s')) \<le> max 1 (pointCount self - 1 + newPointsToGenerate self)"
    proof (cases "length (processingList self) > 0 \<and> int (length (sampledList self)) < pointCount self")
      case False
      with 1(2) y bnd show ?thesis by (auto split: if_splits)
    next
      case True
      with 1(2) y obtain rp self1 t1 self2 t2 where p: "popRandom self t = Inr (rp, self1, t1)"
        and b: "generate_batch (nat (newPointsToGenerate self1)) rp self1 t1 = Inr (self2, t2)"
        and l: "loop self2 t2 = Some y"
        by (auto split: sum.splits if_splits)
      note pf = popRandom_Inr[OF p] and bf = generate_batch_frame[OF b]
      have "int (length (sampledList self2)) \<le> max 1 (pointCount self2 - 1 + newPointsToGenerate self2)"
        using True bnd pf bf by (cases "0 \<le> newPointsToGenerate self") auto
      with 1(1)[OF l] y pf bf show ?thesis by simp
    qed
  qed
qed

lemma weighted_loop_bound:
  assumes "weighted_loop s w q t = Some r"
  shows "\<forall>s' q' t'. r = Inr (s', q', t') \<longrightarrow>
     int (length (sampledList s)) \<le> max 1 (pointCount s) \<longrightarrow>
     int (length (sampledList s')) \<le> max 1 (pointCount s)"
proof (induct rule: weighted_loop.raw_induct [OF _ assms])
  case (1 loop self w q t y)
  show ?case
  proof (intro allI impI)
    fix s' q' t'
    assume y: "y = Inr (s', q', t')"
      and bnd: "int (length (sampledList self)) \<le> max 1 (pointCount self)"
    show "int (length (sampledList s')) \<le> max 1 (pointCount self)"
    proof (cases "length (processingList self) > 0 \<and> int (length (sampledList self)) < pointCount self")
      case False
      with 1(2) y bnd show ?thesis by (auto split: if_splits)
    next
      case True
      with 1(2) y obtain self1 q1 t1 where st: "weighted_step self w q t = Inr (self1, q1, t1)"
        and l: "loop self1 w q1 t1 = Some y"
        by (auto split: sum.splits if_splits)
      note sf = weighted_step_frame[OF st]
      have "int (length (sampledList self1)) \<le> max 1 (pointCount self1)"
        using True sf by auto
      with 1(1)[OF l] y sf show ?thesis by simp
    qed
  qed
qed

section \<open>generateBoundary only appends\<close>

lemma boundary_loop_appends:
  assumes "boundary_loop s ar c t = Some r"
  shows "\<exists>bs. sampledList (fst r) = sampledList s @ bs"
proof (induct rule: boundary_loop.raw_induct [OF _ assms])
  case (1 loop self ar c t y)
  show ?case
  proof (cases "lowerWidth c < of_int (imageWidth self) \<and> upperWidth c < of_int (imageWidth self) \<and>
         leftHeight c < of_int (imageHeight self) \<and> rightHeight c < of_int (imageHeight self)")
    case False
    with 1(2) show ?thesis by (auto split: if_splits)
  next
    case True
    define self1 where "self1 = self\<lparr>sampledList := sampledList self @ boundary_points self c\<rparr>"
    obtain d t1 where d: "boundary_deltas self1 ar t = (d, t1)"
      by (cases "boundary_deltas self1 ar t")
    from True 1(2) d have "loop self1 ar
        \<lparr>upperWidth = upperWidth c + upperWidth d, lowerWidth = lowerWidth c + lowerWidth d,
         leftHeight = leftHeight c + leftHeight d, rightHeight = rightHeight c + rightHeight d\<rparr> t1 = Some y"
      by (simp add: self1_def Let_def split: if_splits)
    from 1(1)[OF this] show ?thesis by (auto simp: self1_def)
  qed
qed

lemma generateBoundary_appends:
  assumes "generateBoundary s t = Some (Inr (s', t'))"
  shows "\<exists>bs. sampledList s' = sampledList s @ bs"
proof -
  from assms obtain ar c0 s1 where l: "boundary_loop s ar c0 t = Some (s1, t')"
    and s': "s' = s1\<lparr>sampledList := sampledList s1 @
                [(of_int (imageWidth s1 - 1), 0),
                 (of_int (imageWidth s1 - 1), of_int (imageHeight s1 - 1))]\<rparr>"
    by (auto simp: generateBoundary_def Let_def split: if_splits option.splits)
  from boundary_loop_appends[OF l] s' show ?thesis by auto
qed

section \<open>Small heaps\<close>

lemma heappush_Nil: "heappush [] x = [x]"
  by (simp add: heappush_def siftdown_def siftdown_loop.simps)

lemma heappush_one:
  "heappush [x] y = (if priority y < priority x then [y, x] else [x, y])"
  by (simp add: heappush_def siftdown_def siftdown_loop.simps)

lemma heappop_one: "heappop [x] = Inr (x, [])"
  by (simp add: heappop_def)

lemma heappop_two: "heappop [x, y] = Inr (x, [y])"
  by (simp add: heappop_def siftup_def siftup_loop.simps siftdown_def siftdown_loop.simps)

section \<open>A run of the weighted sampler on constant weights\<close>

lemma ex_weight_at:
  "weight_at ex_weights 40 64 = Inr 1" "weight_at ex_weights 40 50 = Inr 1"
  by (simp_all add: weight_at_def ex_weights_def py_getitem_def py_index_def)

lemma ex_inBounds:
  "inBounds ((ex_gen pc)\<lparr>sampledList := sl, processingList := pl, gen_grid := gg\<rparr>) (mkPoint a 40)
     \<longleftrightarrow> 18 < a \<and> a < 82"
  by (auto simp: inBounds_def ex_gen_fields mkPoint_def)

lemma mkPoint_sel: "pt_x (mkPoint a b) = a" "pt_y (mkPoint a b) = b"
  by (simp_all add: mkPoint_def)

lemma ex_weighted_batch:
  "weighted_batch 2 (mkPoint 32 40)
      ((ex_gen pc)\<lparr>sampledList := [(32, 40)], processingList := [],
         gen_grid := ex_grid\<lparr>grid := (replicate 64 None)[26 := Some (mkPoint 32 40)]\<rparr>\<rparr>)
      ex_weights [] (4 / 5 ## 0 ## 0 ## 0 ## t) =
     Inr ([\<lparr>pt_x = 64, pt_y = 40, priority = - 1\<rparr>, \<lparr>pt_x = 50, pt_y = 40, priority = - 1\<rparr>], t)"
proof -
  have two: "(2::nat) = Suc (Suc 0)" by simp
  show ?thesis
    unfolding two
    by (simp add: ex_gen_fields ex_candidate_1 ex_candidate_2 ex_inBounds mkPoint_sel ex_weight_at
        heappush_Nil heappush_one)
qed

lemma ex_check_w:
  "\<not> checkInNeighborhood (ex_grid\<lparr>grid := (replicate 64 None)[26 := Some (mkPoint 32 40)]\<rparr>)
        \<lparr>pt_x = 64, pt_y = 40, priority = pr\<rparr>"
  by (simp add: checkInNeighborhood_def mkPoint_def c_64_40 ex_grid_def cellHit_def
      getGridIndex_def upto_rec1 distance_def)

lemma ex_accept_w:
  "accept ((ex_gen pc)\<lparr>sampledList := [(32, 40)], processingList := [],
          gen_grid := ex_grid\<lparr>grid := (replicate 64 None)[26 := Some (mkPoint 32 40)]\<rparr>\<rparr>)
      \<lparr>pt_x = 64, pt_y = 40, priority = - 1\<rparr> = Inr (ex_wfinal pc)"
  by (simp add: accept_def insert_point_def getGridIndex_def mkPoint_def c_64_40 ex_grid_def
      py_setitem_def py_index_def Point_list_def ex_wfinal_def)

lemma drain_done: "drain s q True = Inr (s, q)" "drain s [] found = Inr (s, [])"
  by (simp_all add: drain.simps)

lemma drain_take:
  assumes "heappop q = Inr (p, q1)" "\<not> checkInNeighborhood (gen_grid s) p" "accept s p = Inr s1"
  shows "drain s q False = Inr (s1, q1)"
proof -
  from assms(1) have "q \<noteq> []" by (auto simp: heappop_def split: if_splits)
  with assms show ?thesis by (subst drain.simps) (simp add: drain_done)
qed

lemma drain_reject:
  assumes "heappop q = Inr (p, q1)" "checkInNeighborhood (gen_grid s) p"
  shows "drain s q False = drain s q1 False"
proof -
  from assms(1) have "q \<noteq> []" by (auto simp: heappop_def split: if_splits)
  with assms show ?thesis by (subst drain.simps) simp
qed

lemma ex_drain:
  "drain ((ex_gen pc)\<lparr>sampledList := [(32, 40)], processingList := [],
          gen_grid := ex_grid\<lparr>grid := (replicate 64 None)[26 := Some (mkPoint 32 40)]\<rparr>\<rparr>)
      [\<lparr>pt_x = 64, pt_y = 40, priority = - 1\<rparr>, \<lparr>pt_x = 50, pt_y = 40, priority = - 1\<rparr>] False =
     Inr (ex_wfinal pc, [\<lparr>pt_x = 50, pt_y = 40, priority = - 1\<rparr>])"
  by (rule drain_take[OF heappop_two _ ex_accept_w]) (simp add: ex_check_w)

lemma ex_weighted_step:
  "weighted_step ((ex_gen pc)\<lparr>sampledList := [(32, 40)], processingList := [mkPoint 32 40],
          gen_grid := ex_grid\<lparr>grid := (replicate 64 None)[26 := Some (mkPoint 32 40)]\<rparr>\<rparr>)
      ex_weights [] (0 ## 4 / 5 ## 0 ## 0 ## 0 ## t) =
     Inr (ex_wfinal pc, [\<lparr>pt_x = 50, pt_y = 40, priority = - 1\<rparr>], t)"
  by (simp add: weighted_step_def ex_pop ex_gen_fields ex_weighted_batch ex_drain
      del: weighted_batch.simps)

lemma ex_weighted_main:
  assumes "1 < pc" "pc \<le> 2"
  shows "generateWeighted_main (ex_gen pc) ex_weights
           (32 / 101 ## 40 / 101 ## 0 ## 4 / 5 ## 0 ## 0 ## 0 ## t)
         = Some (Inr (ex_wfinal pc, [\<lparr>pt_x = 50, pt_y = 40, priority = - 1\<rparr>], t))"
proof -
  have l2: "weighted_loop (ex_wfinal pc) ex_weights q t = Some (Inr (ex_wfinal pc, q, t))" for q
    using assms by (subst weighted_loop.simps) (simp add: ex_wfinal_def ex_gen_fields)
  show ?thesis
    unfolding generateWeighted_main_def ex_seed
    apply simp
    apply (subst weighted_loop.simps)
    using assms apply (simp add: ex_weighted_step ex_gen_fields l2)
    done
qed

lemma ex_wboundary:
  assumes "imageWidth s = 100" "imageHeight s = 100" "gen_minDist s = 18"
  shows "generateBoundary s (sconst 0) =
     Some (Inr (s\<lparr>sampledList := sampledList s @
        [(0, 0), (0, 99), (0, 0), (99, 0), (18, 0), (18, 99), (0, 18), (99, 18),
         (36, 0), (36, 99), (0, 36), (99, 36), (54, 0), (54, 99), (0, 54), (99, 54),
         (72, 0), (72, 99), (0, 72), (99, 72), (90, 0), (90, 99), (0, 90), (99, 90),
         (99, 0), (99, 99)]\<rparr>, sconst 0))"
  by (simp add: generateBoundary_def assms boundary_loop.simps boundary_deltas_def
      random_uniform_def boundary_points_def)

lemma ex_tape: "32 / 101 ## 40 / 101 ## 0 ## 4 / 5 ## sconst (0::real)
      = 32 / 101 ## 40 / 101 ## 0 ## 4 / 5 ## 0 ## 0 ## 0 ## sconst 0"
  by (subst sconst_unfold, subst sconst_unfold, subst sconst_unfold) (rule refl)

lemma ex_generate:
  assumes "1 < pc" "pc \<le> 3"
  shows "generate (ex_gen pc) (32 / 101 ## 40 / 101 ## 0 ## 4 / 5 ## sconst 0) =
     Some (Inr ([(32, 40), (64, 40), (50, 40),
         (0, 0), (0, 99), (0, 0), (99, 0), (18, 0), (18, 99), (0, 18), (99, 18),
         (36, 0), (36, 99), (0, 36), (99, 36), (54, 0), (54, 99), (0, 54), (99, 54),
         (72, 0), (72, 99), (0, 72), (99, 72), (90, 0), (90, 99), (0, 90), (99, 90),
         (99, 0), (99, 99)]))"
proof -
  have m: "generate_main (ex_gen pc) (32 / 101 ## 40 / 101 ## 0 ## 4 / 5 ## sconst 0)
      = Some (Inr (ex_final pc, sconst 0))"
    unfolding ex_tape by (rule ex_main[OF assms])
  show ?thesis
    unfolding generate_def m by (simp add: ex_boundary)
qed

lemma ex_generateWeighted:
  assumes "1 < pc" "pc \<le> 2"
  shows "generateWeighted (ex_gen pc) ex_weights (32 / 101 ## 40 / 101 ## 0 ## 4 / 5 ## sconst 0) =
     Some (Inr ([(32, 40), (64, 40),
         (0, 0), (0, 99), (0, 0), (99, 0), (18, 0), (18, 99), (0, 18), (99, 18),
         (36, 0), (36, 99), (0, 36), (99, 36), (54, 0), (54, 99), (0, 54), (99, 54),
         (72, 0), (72, 99), (0, 72), (99, 72), (90, 0), (90, 99), (0, 90), (99, 90),
         (99, 0), (99, 99)]))"
proof -
  have m: "generateWeighted_main (ex_gen pc) ex_weights (32 / 101 ## 40 / 101 ## 0 ## 4 / 5 ## sconst 0)
      = Some (Inr (ex_wfinal pc, [\<lparr>pt_x = 50, pt_y = 40, priority = - 1\<rparr>], sconst 0))"
    unfolding ex_tape by (rule ex_weighted_main[OF assms])
  have b: "generateBoundary (ex_wfinal pc) (sconst 0) =
     Some (Inr ((ex_wfinal pc)\<lparr>sampledList := sampledList (ex_wfinal pc) @
        [(0, 0), (0, 99), (0, 0), (99, 0), (18, 0), (18, 99), (0, 18), (99, 18),
         (36, 0), (36, 99), (0, 36), (99, 36), (54, 0), (54, 99), (0, 54), (99, 54),
         (72, 0), (72, 99), (0, 72), (99, 72), (90, 0), (90, 99), (0, 90), (99, 90),
         (99, 0), (99, 99)]\<rparr>, sconst 0))"
    by (rule ex_wboundary) (simp_all add: ex_wfinal_def ex_gen_fields)
  show ?thesis
    unfolding generateWeighted_def m by (simp add: b) (simp add: ex_wfinal_def)
qed

section \<open>Bounds on the number of sampled points\<close>

lemma generate_main_bound:
  assumes "generate_main (BlueNoiseGenerator_init pc imgH imgW g md k) t = Some (Inr (s, t1))"
  shows "int (length (sampledList s)) \<le> max 1 (pc - 1 + k)"
proof -
  let ?G = "BlueNoiseGenerator_init pc imgH imgW g md k"
  from assms obtain s0 t0 where sd: "seed ?G t = Inr (s0, t0)"
    and l: "generate_loop s0 t0 = Some (Inr (s, t1))"
    by (auto simp: generate_main_def split: sum.splits)
  have f: "pointCount s0 = pc" "newPointsToGenerate s0 = k" "length (sampledList s0) = 1"
    using seed_Inr[OF sd] by (simp_all add: BlueNoiseGenerator_init_def)
  from generate_loop_bound[OF l] f show ?thesis by simp
qed

lemma generateWeighted_main_bound:
  assumes "generateWeighted_main (BlueNoiseGenerator_init pc imgH imgW g md k) w t = Some (Inr (s, q, t1))"
  shows "int (length (sampledList s)) \<le> max 1 pc"
proof -
  let ?G = "BlueNoiseGenerator_init pc imgH imgW g md k"
  from assms obtain s0 t0 where sd: "seed ?G t = Inr (s0, t0)"
    and l: "weighted_loop s0 w [] t0 = Some (Inr (s, q, t1))"
    by (auto simp: generateWeighted_main_def split: sum.splits)
  have f: "pointCount s0 = pc" "length (sampledList s0) = 1"
    using seed_Inr[OF sd] by (simp_all add: BlueNoiseGenerator_init_def)
  from weighted_loop_bound[OF l] f show ?thesis by simp
qed

lemma generate_Inr:
  assumes "generate G t = Some (Inr xs)"
  shows "\<exists>s t1 s2 t2 bs. generate_main G t = Some (Inr (s, t1)) \<and>
     generateBoundary s t1 = Some (Inr (s2, t2)) \<and> xs = sampledList s2 \<and>
     sampledList s2 = sampledList s @ bs"
proof -
  from assms obtain s t1 s2 t2 where m: "generate_main G t = Some (Inr (s, t1))"
    and b: "generateBoundary s t1 = Some (Inr (s2, t2))" and xs: "xs = sampledList s2"
    by (auto simp: generate_def split: option.splits sum.splits)
  from generateBoundary_appends[OF b] m b xs show ?thesis by blast
qed

lemma generateWeighted_Inr:
  assumes "generateWeighted G w t = Some (Inr xs)"
  shows "\<exists>s q t1 s2 t2 bs. generateWeighted_main G w t = Some (Inr (s, q, t1)) \<and>
     generateBoundary s t1 = Some (Inr (s2, t2)) \<and> xs = sampledList s2 \<and>
     sampledList s2 = sampledList s @ bs"
proof -
  from assms obtain s q t1 s2 t2 where m: "generateWeighted_main G w t = Some (Inr (s, q, t1))"
    and b: "generateBoundary s t1 = Some (Inr (s2, t2))" and xs: "xs = sampledList s2"
    by (auto simp: generateWeighted_def split: option.splits sum.splits)
  from generateBoundary_appends[OF b] m b xs show ?thesis by blast
qed

text \<open>
  C10. A run of \<open>generate\<close> that returns a list returns the points sampled by seed and main
  loop followed by the boundary points; the sampled points number at most
  \<open>max 1 (pointCount - 1 + newPointsToGenerate)\<close>. For \<open>generateWeighted\<close> they number
  at most \<open>max 1 pointCount\<close>. The uniform bound can exceed the target: on the 100 by 100
  image with target count 2 and two candidates per step a run samples three points.
\<close>

theorem sampled_count_bounds:
  "(\<forall>xs. generate (BlueNoiseGenerator_init pc imgH imgW g md k) t = Some (Inr xs) \<longrightarrow>
      (\<exists>s t1 s2 t2 bs.
          generate_main (BlueNoiseGenerator_init pc imgH imgW g md k) t = Some (Inr (s, t1)) \<and>
          generateBoundary s t1 = Some (Inr (s2, t2)) \<and> xs = sampledList s2 \<and>
          sampledList s2 = sampledList s @ bs \<and>
          int (length (sampledList s)) \<le> max 1 (pc - 1 + k))) \<and>
   (\<forall>xs. generateWeighted (BlueNoiseGenerator_init pc imgH imgW g md k) w t = Some (Inr xs) \<longrightarrow>
      (\<exists>s q t1 s2 t2 bs.
          generateWeighted_main (BlueNoiseGenerator_init pc imgH imgW g md k) w t = Some (Inr (s, q, t1)) \<and>
          generateBoundary s t1 = Some (Inr (s2, t2)) \<and> xs = sampledList s2 \<and>
          sampledList s2 = sampledList s @ bs \<and>
          int (length (sampledList s)) \<le> max 1 pc)) \<and>
   generate_main (BlueNoiseGenerator_init 2 100 100 ex_grid 18 2)
       (32 / 101 ## 40 / 101 ## 0 ## 4 / 5 ## sconst 0) = Some (Inr (ex_final 2, sconst 0)) \<and>
   pointCount (ex_final 2) = 2 \<and> length (sampledList (ex_final 2)) = 3"
proof (intro conjI allI impI)
  fix xs
  assume "generate (BlueNoiseGenerator_init pc imgH imgW g md k) t = Some (Inr xs)"
  from generate_Inr[OF this] generate_main_bound
  show "\<exists>s t1 s2 t2 bs.
          generate_main (BlueNoiseGenerator_init pc imgH imgW g md k) t = Some (Inr (s, t1)) \<and>
          generateBoundary s t1 = Some (Inr (s2, t2)) \<and> xs = sampledList s2 \<and>
          sampledList s2 = sampledList s @ bs \<and>
          int (length (sampledList s)) \<le> max 1 (pc - 1 + k)"
    by blast
next
  fix xs
  assume "generateWeighted (BlueNoiseGenerator_init pc imgH imgW g md k) w t = Some (Inr xs)"
  from generateWeighted_Inr[OF this] generateWeighted_main_bound
  show "\<exists>s q t1 s2 t2 bs.
          generateWeighted_main (BlueNoiseGenerator_init pc imgH imgW g md k) w t = Some (Inr (s, q, t1)) \<and>
          generateBoundary s t1 = Some (Inr (s2, t2)) \<and> xs = sampledList s2 \<and>
          sampledList s2 = sampledList s @ bs \<and>
          int (length (sampledList s)) \<le> max 1 pc"
    by blast
next
  show "generate_main (BlueNoiseGenerator_init 2 100 100 ex_grid 18 2)
       (32 / 101 ## 40 / 101 ## 0 ## 4 / 5 ## sconst 0) = Some (Inr (ex_final 2, sconst 0))"
    using ex_main[of 2 "sconst 0"] unfolding ex_tape ex_gen_def by simp
next
  show "pointCount (ex_final 2) = 2" by (simp add: ex_final_def ex_gen_fields)
next
  show "length (sampledList (ex_final 2)) = 3" by (simp add: ex_final_def)
qed

theorem sampled_count_bounds_witness:
  "(\<exists>xs s t1 s2 t2 bs.
      generate (BlueNoiseGenerator_init 2 100 100 ex_grid 18 2)
        (32 / 101 ## 40 / 101 ## 0 ## 4 / 5 ## sconst 0) = Some (Inr xs) \<and>
      generate_main (BlueNoiseGenerator_init 2 100 100 ex_grid 18 2)
        (32 / 101 ## 40 / 101 ## 0 ## 4 / 5 ## sconst 0) = Some (Inr (s, t1)) \<and>
      generateBoundary s t1 = Some (Inr (s2, t2)) \<and> xs = sampledList s2 \<and>
      sampledList s2 = sampledList s @ bs \<and>
      int (length (sampledList s)) \<le> max 1 (2 - 1 + 2)) \<and>
   (\<exists>xs s q t1 s2 t2 bs.
      generateWeighted (BlueNoiseGenerator_init 2 100 100 ex_grid 18 2) ex_weights
        (32 / 101 ## 40 / 101 ## 0 ## 4 / 5 ## sconst 0) = Some (Inr xs) \<and>
      generateWeighted_main (BlueNoiseGenerator_init 2 100 100 ex_grid 18 2) ex_weights
        (32 / 101 ## 40 / 101 ## 0 ## 4 / 5 ## sconst 0) = Some (Inr (s, q, t1)) \<and>
      generateBoundary s t1 = Some (Inr (s2, t2)) \<and> xs = sampledList s2 \<and>
      sampledList s2 = sampledList s @ bs \<and>
      int (length (sampledList s)) \<le> max 1 2)"
proof -
  note th = sampled_count_bounds [of 2 100 100 ex_grid 18 2 "32 / 101 ## 40 / 101 ## 0 ## 4 / 5 ## sconst 0" ex_weights]
  have u: "\<exists>xs. generate (BlueNoiseGenerator_init 2 100 100 ex_grid 18 2)
        (32 / 101 ## 40 / 101 ## 0 ## 4 / 5 ## sconst 0) = Some (Inr xs)"
    using ex_generate[of 2] unfolding ex_gen_def by simp
  have w: "\<exists>xs. generateWeighted (BlueNoiseGenerator_init 2 100 100 ex_grid 18 2) ex_weights
        (32 / 101 ## 40 / 101 ## 0 ## 4 / 5 ## sconst 0) = Some (Inr xs)"
    using ex_generateWeighted[of 2] unfolding ex_gen_def by simp
  from u th [THEN conjunct1] have c1: "\<exists>xs s t1 s2 t2 bs.
      generate (BlueNoiseGenerator_init 2 100 100 ex_grid 18 2)
        (32 / 101 ## 40 / 101 ## 0 ## 4 / 5 ## sconst 0) = Some (Inr xs) \<and>
      generate_main (BlueNoiseGenerator_init 2 100 100 ex_grid 18 2)
        (32 / 101 ## 40 / 101 ## 0 ## 4 / 5 ## sconst 0) = Some (Inr (s, t1)) \<and>
      generateBoundary s t1 = Some (Inr (s2, t2)) \<and> xs = sampledList s2 \<and>
      sampledList s2 = sampledList s @ bs \<and>
      int (length (sampledList s)) \<le> max 1 (2 - 1 + 2)"
    by blast
  from w th [THEN conjunct2, THEN conjunct1] have c2: "\<exists>xs s q t1 s2 t2 bs.
      generateWeighted (BlueNoiseGenerator_init 2 100 100 ex_grid 18 2) ex_weights
        (32 / 101 ## 40 / 101 ## 0 ## 4 / 5 ## sconst 0) = Some (Inr xs) \<and>
      generateWeighted_main (BlueNoiseGenerator_init 2 100 100 ex_grid 18 2) ex_weights
        (32 / 101 ## 40 / 101 ## 0 ## 4 / 5 ## sconst 0) = Some (Inr (s, q, t1)) \<and>
      generateBoundary s t1 = Some (Inr (s2, t2)) \<and> xs = sampledList s2 \<and>
      sampledList s2 = sampledList s @ bs \<and>
      int (length (sampledList s)) \<le> max 1 2"
    by blast
  from c1 c2 show ?thesis by (rule conjI)
qed

section \<open>A run of the weighted sampler on a weight surface with two peaks\<close>

lemma c_77_40: "cellSize g = 18 / sqrt 2 \<Longrightarrow>
    getGridCoordinates g \<lparr>pt_x = 77, pt_y = 40, priority = pr\<rparr> = mkPoint 6 3"
  by (rule coords_18) simp_all

lemma c_68_40: "cellSize g = 18 / sqrt 2 \<Longrightarrow>
    getGridCoordinates g \<lparr>pt_x = 68, pt_y = 40, priority = pr\<rparr> = mkPoint 5 3"
  by (rule coords_18) simp_all

lemma ex_importance_at:
  "weight_at ex_importance 40 50 = Inr 1" "weight_at ex_importance 40 64 = Inr 2"
  "weight_at ex_importance 40 77 = Inr 3" "weight_at ex_importance 40 68 = Inr 1"
  by (simp_all add: weight_at_def ex_importance_def py_getitem_def py_index_def)

lemma candidate_to_the_right:
  "generateRandomPointAround p 18 (r1 ## 0 ## t) =
     (mkPoint (pt_x p + py_int (18 * (1 + r1))) (pt_y p), t)"
  by (simp add: generateRandomPointAround_def random_random_def py_int_def)

lemma ex_offsets:
  "py_int 18 = 18" "py_int (162 / 5) = 32" "py_int 27 = 27"
  by (simp_all add: py_int_def)

lemma popRandom_single:
  assumes "processingList s = [p]"
  shows "popRandom s (0 ## t) = Inr (p, s\<lparr>processingList := []\<rparr>, t)"
  using assms by (simp add: popRandom_def random_randint_def py_pop_def py_index_def)

lemma ex_pass_fields:
  "gen_minDist (ex_seeded pc) = 18" "newPointsToGenerate (ex_seeded pc) = 2"
  "processingList (ex_seeded pc) = [mkPoint 32 40]"
  "gen_minDist (ex_pass1 pc) = 18" "newPointsToGenerate (ex_pass1 pc) = 2"
  "processingList (ex_pass1 pc) = [cand_A]"
  "gen_minDist (ex_pass2 pc) = 18" "newPointsToGenerate (ex_pass2 pc) = 2"
  "processingList (ex_pass2 pc) = [cand_B]"
  by (simp_all add: ex_seeded_def ex_pass1_def ex_pass2_def ex_gen_fields)

lemma ex_pass_inBounds:
  "inBounds ((ex_seeded pc)\<lparr>processingList := pl\<rparr>) (mkPoint a 40) \<longleftrightarrow> 18 < a \<and> a < 82"
  "inBounds ((ex_pass1 pc)\<lparr>processingList := pl\<rparr>) (mkPoint a 40) \<longleftrightarrow> 18 < a \<and> a < 82"
  "inBounds ((ex_pass2 pc)\<lparr>processingList := pl\<rparr>) (mkPoint a 40) \<longleftrightarrow> 18 < a \<and> a < 82"
  by (auto simp: inBounds_def ex_seeded_def ex_pass1_def ex_pass2_def ex_gen_fields mkPoint_def)

lemma two_passes: "(2::nat) = Suc (Suc 0)"
  by simp

text \<open>First pass: \<open>(50, 40)\<close> is queued before \<open>(64, 40)\<close>, which has the larger weight and leaves first.\<close>

lemma ex_batch1:
  "weighted_batch 2 (mkPoint 32 40) ((ex_seeded pc)\<lparr>processingList := []\<rparr>) ex_importance []
      (0 ## 0 ## 4 / 5 ## 0 ## t) = Inr ([cand_A, cand_B], t)"
  unfolding two_passes
  by (simp add: ex_pass_fields candidate_to_the_right ex_offsets ex_pass_inBounds mkPoint_sel
      ex_importance_at heappush_Nil heappush_one)
     (simp add: mkPoint_def cand_A_def cand_B_def)

lemma ex_check_A:
  "\<not> checkInNeighborhood (gen_grid ((ex_seeded pc)\<lparr>processingList := []\<rparr>)) cand_A"
  by (simp add: ex_seeded_def cand_A_def checkInNeighborhood_def mkPoint_def c_64_40 ex_grid_def
      cellHit_def getGridIndex_def upto_rec1 distance_def)

lemma ex_accept_A:
  "accept ((ex_seeded pc)\<lparr>processingList := []\<rparr>) cand_A = Inr (ex_pass1 pc)"
  by (simp add: ex_seeded_def ex_pass1_def cand_A_def accept_def insert_point_def getGridIndex_def
      mkPoint_def c_64_40 ex_grid_def py_setitem_def py_index_def Point_list_def)

lemma ex_step1:
  "weighted_step (ex_seeded pc) ex_importance [] (0 ## 0 ## 0 ## 4 / 5 ## 0 ## t) =
     Inr (ex_pass1 pc, [cand_B], t)"
proof -
  have d: "drain ((ex_seeded pc)\<lparr>processingList := []\<rparr>) [cand_A, cand_B] False
      = Inr (ex_pass1 pc, [cand_B])"
    by (rule drain_take[OF heappop_two ex_check_A ex_accept_A])
  show ?thesis
    by (simp add: weighted_step_def popRandom_single[OF ex_pass_fields(3)] ex_pass_fields
        ex_batch1 d del: weighted_batch.simps)
qed

text \<open>
  Second pass: both candidates around \<open>(64, 40)\<close> are \<open>(82, 40)\<close>, outside the margin; the
  queue still holds \<open>(50, 40)\<close>, and the query on it misses \<open>(64, 40)\<close>.
\<close>

lemma ex_batch2:
  "weighted_batch 2 cand_A ((ex_pass1 pc)\<lparr>processingList := []\<rparr>) ex_importance [cand_B]
      (0 ## 0 ## 0 ## 0 ## t) = Inr ([cand_B], t)"
  unfolding two_passes
  by (simp add: ex_pass_fields candidate_to_the_right ex_offsets ex_pass_inBounds cand_A_def)

lemma ex_check_B:
  "\<not> checkInNeighborhood (gen_grid ((ex_pass1 pc)\<lparr>processingList := pl\<rparr>)) cand_B"
  by (simp add: ex_pass1_def cand_A_def cand_B_def checkInNeighborhood_def mkPoint_def c_50_40
      ex_grid_def cellHit_def getGridIndex_def upto_rec1 distance_def)

lemma ex_accept_B:
  "accept ((ex_pass1 pc)\<lparr>processingList := []\<rparr>) cand_B = Inr (ex_pass2 pc)"
  by (simp add: ex_pass1_def ex_pass2_def cand_B_def accept_def insert_point_def getGridIndex_def
      mkPoint_def c_50_40 ex_grid_def py_setitem_def py_index_def Point_list_def)

lemma ex_step2:
  "weighted_step (ex_pass1 pc) ex_importance [cand_B] (0 ## 0 ## 0 ## 0 ## 0 ## t) =
     Inr (ex_pass2 pc, [], t)"
proof -
  have d: "drain ((ex_pass1 pc)\<lparr>processingList := []\<rparr>) [cand_B] False = Inr (ex_pass2 pc, [])"
    by (rule drain_take[OF heappop_one ex_check_B ex_accept_B])
  show ?thesis
    by (simp add: weighted_step_def popRandom_single[OF ex_pass_fields(6)] ex_pass_fields
        ex_batch2 d del: weighted_batch.simps)
qed

text \<open>
  Third pass: the candidates \<open>(77, 40)\<close> and \<open>(68, 40)\<close> around \<open>(50, 40)\<close> leave the queue in
  this order and are both rejected, \<open>(64, 40)\<close> being in a scanned cell for each.
\<close>

lemma ex_batch3:
  "weighted_batch 2 cand_B ((ex_pass2 pc)\<lparr>processingList := []\<rparr>) ex_importance []
      (1 / 2 ## 0 ## 0 ## 0 ## t) = Inr ([cand_C, cand_D], t)"
  unfolding two_passes
  by (simp add: ex_pass_fields candidate_to_the_right ex_offsets ex_pass_inBounds mkPoint_sel
      ex_importance_at heappush_Nil heappush_one cand_B_def)
     (simp add: mkPoint_def cand_C_def cand_D_def)

lemma ex_check_C:
  "checkInNeighborhood (gen_grid ((ex_pass2 pc)\<lparr>processingList := pl\<rparr>)) cand_C"
  by (simp add: ex_pass2_def cand_A_def cand_B_def cand_C_def checkInNeighborhood_def mkPoint_def
      c_77_40 ex_grid_def cellHit_def getGridIndex_def upto_rec1 distance_def)

lemma ex_check_D:
  "checkInNeighborhood (gen_grid ((ex_pass2 pc)\<lparr>processingList := pl\<rparr>)) cand_D"
  by (simp add: ex_pass2_def cand_A_def cand_B_def cand_D_def checkInNeighborhood_def mkPoint_def
      c_68_40 ex_grid_def cellHit_def getGridIndex_def upto_rec1 distance_def)

lemma ex_step3:
  "weighted_step (ex_pass2 pc) ex_importance [] (0 ## 1 / 2 ## 0 ## 0 ## 0 ## t) =
     Inr ((ex_pass2 pc)\<lparr>processingList := []\<rparr>, [], t)"
proof -
  have "drain ((ex_pass2 pc)\<lparr>processingList := []\<rparr>) [cand_C, cand_D] False
      = drain ((ex_pass2 pc)\<lparr>processingList := []\<rparr>) [cand_D] False"
    by (rule drain_reject[OF heappop_two ex_check_C])
  also have "\<dots> = drain ((ex_pass2 pc)\<lparr>processingList := []\<rparr>) [] False"
    by (rule drain_reject[OF heappop_one ex_check_D])
  finally have d: "drain ((ex_pass2 pc)\<lparr>processingList := []\<rparr>) [cand_C, cand_D] False
      = Inr ((ex_pass2 pc)\<lparr>processingList := []\<rparr>, [])"
    by (simp add: drain_done)
  show ?thesis
    by (simp add: weighted_step_def popRandom_single[OF ex_pass_fields(9)] ex_pass_fields
        ex_batch3 d del: weighted_batch.simps)
qed

lemma ex_weighted_run:
  "generateWeighted_main (ex_gen 4) ex_importance ex_draws =
     Some (Inr ((ex_pass2 4)\<lparr>processingList := []\<rparr>, [], sconst 0))"
proof -
  have s: "seed (ex_gen 4) ex_draws = Inr (ex_seeded 4, ex_draws1)"
    unfolding ex_draws_def ex_seeded_def by (rule ex_seed)
  have l4: "weighted_loop ((ex_pass2 4)\<lparr>processingList := []\<rparr>) ex_importance [] (sconst 0)
      = Some (Inr ((ex_pass2 4)\<lparr>processingList := []\<rparr>, [], sconst 0))"
    by (subst weighted_loop.simps) simp
  have l3: "weighted_loop (ex_pass2 4) ex_importance [] ex_draws3
      = Some (Inr ((ex_pass2 4)\<lparr>processingList := []\<rparr>, [], sconst 0))"
    by (subst weighted_loop.simps)
       (simp add: ex_draws3_def ex_step3 l4, simp add: ex_pass2_def ex_gen_fields)
  have l2: "weighted_loop (ex_pass1 4) ex_importance [cand_B] ex_draws2
      = Some (Inr ((ex_pass2 4)\<lparr>processingList := []\<rparr>, [], sconst 0))"
    by (subst weighted_loop.simps)
       (simp add: ex_draws2_def ex_step2 l3, simp add: ex_pass1_def ex_gen_fields)
  have l1: "weighted_loop (ex_seeded 4) ex_importance [] ex_draws1
      = Some (Inr ((ex_pass2 4)\<lparr>processingList := []\<rparr>, [], sconst 0))"
    by (subst weighted_loop.simps)
       (simp add: ex_draws1_def ex_step1 l2, simp add: ex_seeded_def ex_gen_fields)
  show ?thesis
    by (simp add: generateWeighted_main_def s l1)
qed

text \<open>
  C3 on the code. Image 100 by 100, \<open>minDist = 18\<close>, target count 4, two candidates per
  pass, weight 2 at \<open>(64, 40)\<close>, 3 at \<open>(77, 40)\<close> and 1 elsewhere. In the first pass
  \<open>(50, 40)\<close> is queued with priority \<open>-1\<close>, then \<open>(64, 40)\<close> with priority \<open>-2\<close>; the
  latter is popped first and accepted, and \<open>(50, 40)\<close> stays queued. In the second pass
  nothing is queued, \<open>(50, 40)\<close> is popped and accepted although the grid holds
  \<open>(64, 40)\<close> at distance 14, less than \<open>minDist\<close>: \<open>(64, 40)\<close> is two cell columns to the
  right, where the scan of \<open>checkInNeighborhood\<close> does not reach. In the third pass
  \<open>(77, 40)\<close> and \<open>(68, 40)\<close> are popped in this order and both rejected and discarded.
  The returned list starts with the three sampled points; the 26 points after them are
  the boundary points.
\<close>

theorem weighted_accepts_close_candidate:
  "Grid_init 18 100 100 = Inr ex_grid \<and>
   ex_gen 4 = BlueNoiseGenerator_init 4 100 100 ex_grid 18 2 \<and>
   valid_rng ex_draws \<and>
   seed (ex_gen 4) ex_draws = Inr (ex_seeded 4, ex_draws1) \<and>
   weighted_step (ex_seeded 4) ex_importance [] ex_draws1 = Inr (ex_pass1 4, [cand_B], ex_draws2) \<and>
   weighted_step (ex_pass1 4) ex_importance [cand_B] ex_draws2 = Inr (ex_pass2 4, [], ex_draws3) \<and>
   weighted_step (ex_pass2 4) ex_importance [] ex_draws3 =
     Inr ((ex_pass2 4)\<lparr>processingList := []\<rparr>, [], sconst 0) \<and>
   generateWeighted (ex_gen 4) ex_importance ex_draws =
     Some (Inr ([(32, 40), (64, 40), (50, 40)] @
        [(0, 0), (0, 99), (0, 0), (99, 0), (18, 0), (18, 99), (0, 18), (99, 18),
         (36, 0), (36, 99), (0, 36), (99, 36), (54, 0), (54, 99), (0, 54), (99, 54),
         (72, 0), (72, 99), (0, 72), (99, 72), (90, 0), (90, 99), (0, 90), (99, 90),
         (99, 0), (99, 99)])) \<and>
   grid (gen_grid (ex_pass1 4)) ! 29 = Some cand_A \<and>
   minDist (gen_grid (ex_pass1 4)) = 18 \<and>
   distance cand_B cand_A = 14"
proof -
  have v: "valid_rng ex_draws"
    by (simp add: ex_draws_def ex_draws1_def ex_draws2_def ex_draws3_def
        valid_rng_SCons valid_rng_sconst)
  have s: "seed (ex_gen 4) ex_draws = Inr (ex_seeded 4, ex_draws1)"
    unfolding ex_draws_def ex_seeded_def by (rule ex_seed)
  have s1: "weighted_step (ex_seeded 4) ex_importance [] ex_draws1
      = Inr (ex_pass1 4, [cand_B], ex_draws2)"
    unfolding ex_draws1_def by (rule ex_step1)
  have s2: "weighted_step (ex_pass1 4) ex_importance [cand_B] ex_draws2
      = Inr (ex_pass2 4, [], ex_draws3)"
    unfolding ex_draws2_def by (rule ex_step2)
  have s3: "weighted_step (ex_pass2 4) ex_importance [] ex_draws3
      = Inr ((ex_pass2 4)\<lparr>processingList := []\<rparr>, [], sconst 0)"
    unfolding ex_draws3_def by (rule ex_step3)
  have g: "generateWeighted (ex_gen 4) ex_importance ex_draws =
     Some (Inr ([(32, 40), (64, 40), (50, 40)] @
        [(0, 0), (0, 99), (0, 0), (99, 0), (18, 0), (18, 99), (0, 18), (99, 18),
         (36, 0), (36, 99), (0, 36), (99, 36), (54, 0), (54, 99), (0, 54), (99, 54),
         (72, 0), (72, 99), (0, 72), (99, 72), (90, 0), (90, 99), (0, 90), (99, 90),
         (99, 0), (99, 99)]))"
  proof -
    have b: "generateBoundary ((ex_pass2 4)\<lparr>processingList := []\<rparr>) (sconst 0) =
       Some (Inr ((ex_pass2 4)\<lparr>processingList := [],
          sampledList := sampledList ((ex_pass2 4)\<lparr>processingList := []\<rparr>) @
          [(0, 0), (0, 99), (0, 0), (99, 0), (18, 0), (18, 99), (0, 18), (99, 18),
           (36, 0), (36, 99), (0, 36), (99, 36), (54, 0), (54, 99), (0, 54), (99, 54),
           (72, 0), (72, 99), (0, 72), (99, 72), (90, 0), (90, 99), (0, 90), (99, 90),
           (99, 0), (99, 99)]\<rparr>, sconst 0))"
      by (rule ex_wboundary) (simp_all add: ex_pass2_def ex_gen_fields)
    show ?thesis
      unfolding generateWeighted_def ex_weighted_run by (simp add: b) (simp add: ex_pass2_def)
  qed
  have n: "grid (gen_grid (ex_pass1 4)) ! 29 = Some cand_A"
    by (simp add: ex_pass1_def)
  have m: "minDist (gen_grid (ex_pass1 4)) = 18"
    by (simp add: ex_pass1_def ex_grid_def)
  have d: "distance cand_B cand_A = 14"
    by (simp add: distance_def cand_A_def cand_B_def)
  have e: "ex_gen 4 = BlueNoiseGenerator_init 4 100 100 ex_grid 18 2"
    by (simp add: ex_gen_def)
  from Grid_init_18 e v s s1 s2 s3 g n m d show ?thesis by blast
qed

section \<open>The grid after a sequence of insertions\<close>

lemma Grid_init_Inr:
  assumes "Grid_init m W H = Inr g"
  shows "cellSize g = m / sqrt 2" and "minDist g = m"
    and "width g = \<lceil>of_int W / (m / sqrt 2)\<rceil>" and "height g = \<lceil>of_int H / (m / sqrt 2)\<rceil>"
    and "grid g = replicate (nat (width g) * nat (height g)) None"
  using assms by (auto simp: Grid_init_def Let_def split: if_splits)

lemma c_26_26: "cellSize g = 18 / sqrt 2 \<Longrightarrow>
    getGridCoordinates g \<lparr>pt_x = 26, pt_y = 26, priority = pr\<rparr> = mkPoint 2 2"
  by (rule coords_18) simp_all

lemma c_38_26: "cellSize g = 18 / sqrt 2 \<Longrightarrow>
    getGridCoordinates g \<lparr>pt_x = 38, pt_y = 26, priority = pr\<rparr> = mkPoint 2 2"
  by (rule coords_18) simp_all

lemma c_13_26: "cellSize g = 18 / sqrt 2 \<Longrightarrow>
    getGridCoordinates g \<lparr>pt_x = 13, pt_y = 26, priority = pr\<rparr> = mkPoint 1 2"
  by (rule coords_18) simp_all

text \<open>
  C2 on the code. Grid for a 100 by 100 image with \<open>minDist = 18\<close>, points \<open>(32, 40)\<close> and
  \<open>(64, 40)\<close> inserted. The query on \<open>(50, 40)\<close> returns false although \<open>(64, 40)\<close> is at
  distance 14: the query point is in cell column 3, the stored point in column 5, and
  \<^verbatim>\<open>range(c - 2, c + 2)\<close> ends at column 4. The window is not symmetric: with \<open>(50, 40)\<close>
  stored instead, the query on \<open>(64, 40)\<close> looks two columns to the left and returns true.
\<close>

theorem checkInNeighborhood_misses_right_cell:
  "Grid_init 18 100 100 = Inr ex_grid \<and>
   insert_all ex_grid [mkPoint 32 40, mkPoint 64 40] =
     Inr (ex_grid\<lparr>grid := (replicate 64 None)
            [26 := Some (mkPoint 32 40), 29 := Some (mkPoint 64 40)]\<rparr>) \<and>
   getGridCoordinates ex_grid (mkPoint 50 40) = mkPoint 3 3 \<and>
   getGridCoordinates ex_grid (mkPoint 64 40) = mkPoint 5 3 \<and>
   distance (mkPoint 50 40) (mkPoint 64 40) = 14 \<and>
   \<not> checkInNeighborhood
       (ex_grid\<lparr>grid := (replicate 64 None)
            [26 := Some (mkPoint 32 40), 29 := Some (mkPoint 64 40)]\<rparr>) (mkPoint 50 40) \<and>
   insert_all ex_grid [mkPoint 32 40, mkPoint 50 40] =
     Inr (ex_grid\<lparr>grid := (replicate 64 None)
            [26 := Some (mkPoint 32 40), 27 := Some (mkPoint 50 40)]\<rparr>) \<and>
   checkInNeighborhood
       (ex_grid\<lparr>grid := (replicate 64 None)
            [26 := Some (mkPoint 32 40), 27 := Some (mkPoint 50 40)]\<rparr>) (mkPoint 64 40)"
proof -
  have i1: "insert_all ex_grid [mkPoint 32 40, mkPoint 64 40] =
     Inr (ex_grid\<lparr>grid := (replicate 64 None)
            [26 := Some (mkPoint 32 40), 29 := Some (mkPoint 64 40)]\<rparr>)"
    by (simp add: insert_point_def getGridIndex_def mkPoint_def c_32_40 c_64_40 ex_grid_def
        py_setitem_def py_index_def)
  have i2: "insert_all ex_grid [mkPoint 32 40, mkPoint 50 40] =
     Inr (ex_grid\<lparr>grid := (replicate 64 None)
            [26 := Some (mkPoint 32 40), 27 := Some (mkPoint 50 40)]\<rparr>)"
    by (simp add: insert_point_def getGridIndex_def mkPoint_def c_32_40 c_50_40 ex_grid_def
        py_setitem_def py_index_def)
  have c1: "getGridCoordinates ex_grid (mkPoint 50 40) = mkPoint 3 3"
    by (simp add: mkPoint_def c_50_40 ex_grid_def)
  have c2: "getGridCoordinates ex_grid (mkPoint 64 40) = mkPoint 5 3"
    by (simp add: mkPoint_def c_64_40 ex_grid_def)
  have d: "distance (mkPoint 50 40) (mkPoint 64 40) = 14"
    by (simp add: distance_def mkPoint_def)
  have q2: "checkInNeighborhood
       (ex_grid\<lparr>grid := (replicate 64 None)
            [26 := Some (mkPoint 32 40), 27 := Some (mkPoint 50 40)]\<rparr>) (mkPoint 64 40)"
    by (simp add: checkInNeighborhood_def mkPoint_def c_64_40 ex_grid_def cellHit_def
        getGridIndex_def upto_rec1 distance_def)
  from Grid_init_18 i1 c1 c2 d ex_check_2 i2 q2 show ?thesis by blast
qed

text \<open>
  Each cell stores one point: \<open>(26, 26)\<close> and \<open>(38, 26)\<close> fall into the same cell, the
  second insertion overwrites the first, and the query on \<open>(13, 26)\<close> returns false
  although the inserted point \<open>(26, 26)\<close> is at distance 13.
\<close>

lemma insert_overwrites_cell:
  "insert_all ex_grid [mkPoint 26 26, mkPoint 38 26] =
     Inr (ex_grid\<lparr>grid := (replicate 64 None)[18 := Some (mkPoint 38 26)]\<rparr>) \<and>
   \<not> checkInNeighborhood (ex_grid\<lparr>grid := (replicate 64 None)[18 := Some (mkPoint 38 26)]\<rparr>)
       (mkPoint 13 26) \<and>
   distance (mkPoint 13 26) (mkPoint 26 26) = 13"
proof -
  have ins: "insert_all ex_grid [mkPoint 26 26, mkPoint 38 26] =
     Inr (ex_grid\<lparr>grid := (replicate 64 None)[18 := Some (mkPoint 38 26)]\<rparr>)"
    by (simp add: insert_point_def getGridIndex_def mkPoint_def c_26_26 c_38_26 ex_grid_def
        py_setitem_def py_index_def)
  have chk: "\<not> checkInNeighborhood (ex_grid\<lparr>grid := (replicate 64 None)[18 := Some (mkPoint 38 26)]\<rparr>)
       (mkPoint 13 26)"
    by (simp add: checkInNeighborhood_def mkPoint_def c_13_26 ex_grid_def cellHit_def
        getGridIndex_def upto_rec1 distance_def)
  have d: "distance (mkPoint 13 26) (mkPoint 26 26) = 13"
    by (simp add: distance_def mkPoint_def)
  from ins chk d show ?thesis by blast
qed

section \<open>Termination of the samplers\<close>

lemma generate_batch_rng:
  "generate_batch n rp s t = Inr (s', t') \<Longrightarrow> valid_rng t \<Longrightarrow> valid_rng t'"
proof (induction n arbitrary: s t)
  case 0
  then show ?case by simp
next
  case (Suc n)
  obtain np t1 where g: "generateRandomPointAround rp (gen_minDist s) t = (np, t1)"
    by (cases "generateRandomPointAround rp (gen_minDist s) t")
  have "t1 = stl (stl t)" using generateRandomPointAround_rng[of rp "gen_minDist s" t] g by simp
  then have v: "valid_rng t1" using Suc.prems(2) by (simp add: valid_rng_stl)
  from Suc.prems(1) g obtain s1 where "generate_batch n rp s1 t1 = Inr (s', t')"
    by (auto split: sum.splits if_splits)
  from Suc.IH[OF this v] show ?case .
qed

lemma weighted_batch_rng:
  "weighted_batch n rp s w q t = Inr (q', t') \<Longrightarrow> valid_rng t \<Longrightarrow> valid_rng t'"
proof (induction n arbitrary: q t)
  case 0
  then show ?case by simp
next
  case (Suc n)
  obtain np t1 where g: "generateRandomPointAround rp (gen_minDist s) t = (np, t1)"
    by (cases "generateRandomPointAround rp (gen_minDist s) t")
  have "t1 = stl (stl t)" using generateRandomPointAround_rng[of rp "gen_minDist s" t] g by simp
  then have v: "valid_rng t1" using Suc.prems(2) by (simp add: valid_rng_stl)
  from Suc.prems(1) g obtain q1 where "weighted_batch n rp s w q1 t1 = Inr (q', t')"
    by (auto split: sum.splits if_splits)
  from Suc.IH[OF this v] show ?case .
qed

lemma generate_batch_progress:
  "generate_batch n rp s t = Inr (s', t') \<Longrightarrow>
     \<exists>a \<le> n. length (sampledList s') = length (sampledList s) + a \<and>
              length (processingList s') = length (processingList s) + a"
proof (induction n arbitrary: s t)
  case 0
  then show ?case by simp
next
  case (Suc n)
  obtain np t1 where g: "generateRandomPointAround rp (gen_minDist s) t = (np, t1)"
    by (cases "generateRandomPointAround rp (gen_minDist s) t")
  show ?case
  proof (cases "inBounds s np \<and> \<not> checkInNeighborhood (gen_grid s) np")
    case True
    with Suc.prems g obtain s1 where a: "accept s np = Inr s1"
      and r: "generate_batch n rp s1 t1 = Inr (s', t')"
      by (auto split: sum.splits)
    from Suc.IH[OF r] obtain a' where "a' \<le> n"
      "length (sampledList s') = length (sampledList s1) + a'"
      "length (processingList s') = length (processingList s1) + a'" by blast
    with accept_Inr(1,2)[OF a] show ?thesis
      by (intro exI[of _ "Suc a'"]) simp
  next
    case False
    with Suc.prems g have r: "generate_batch n rp s t1 = Inr (s', t')"
      by (auto split: sum.splits)
    from Suc.IH[OF r] show ?thesis by (auto intro: le_SucI)
  qed
qed

lemma drain_progress:
  "drain s q found = Inr (s', q') \<Longrightarrow>
     \<exists>a \<le> (if found then 0 else 1 :: nat).
        length (sampledList s') = length (sampledList s) + a \<and>
        length (processingList s') = length (processingList s) + a"
proof (induction "length q" arbitrary: s q found s' q' rule: less_induct)
  case less
  from less.prems show ?case
  proof (cases rule: drain_cases)
    case stop
    then show ?thesis by simp
  next
    case (reject p q1)
    from heappop_Inr[OF reject(3)] have "length q1 < length q" by simp
    from less.hyps[OF this reject(5)] reject(2) show ?thesis by simp
  next
    case (take p q1 s1)
    from take(6) have "s' = s1" by (simp add: drain_done)
    with accept_Inr(1,2)[OF take(5)] take(2) show ?thesis
      by (intro exI[of _ 1]) simp
  qed
qed

lemma uniform_measure_step:
  assumes "0 < length (processingList s)" "int (length (sampledList s)) < pointCount s"
    and p: "popRandom s t = Inr (rp, s1, t1)"
    and b: "generate_batch (nat (newPointsToGenerate s1)) rp s1 t1 = Inr (s2, t2)"
  shows "uniform_measure s2 < uniform_measure s"
proof -
  note pf = popRandom_Inr[OF p] and bf = generate_batch_frame[OF b]
  define k where "k = nat (newPointsToGenerate s)"
  define d where "d = nat (pointCount s - int (length (sampledList s)))"
  define d2 where "d2 = nat (pointCount s - int (length (sampledList s2)))"
  from generate_batch_progress[OF b] obtain a where a: "a \<le> k"
    "length (sampledList s2) = length (sampledList s) + a"
    "length (processingList s2) = length (processingList s1) + a"
    using pf by (auto simp: k_def)
  have d: "1 \<le> d" using assms(2) by (simp add: d_def)
  have m: "uniform_measure s = d * (k + 1) + length (processingList s)"
    by (simp add: uniform_measure_def d_def k_def)
  have m2: "uniform_measure s2 = d2 * (k + 1) + length (processingList s1) + a"
    using a(3) pf bf by (simp add: uniform_measure_def d2_def k_def)
  show ?thesis
  proof (cases "a = 0")
    case True
    then have "d2 = d" using a(2) by (simp add: d_def d2_def)
    with m m2 True pf(2) show ?thesis by simp
  next
    case False
    then have "d2 + 1 \<le> d" using a(2) assms(2) by (simp add: d_def d2_def)
    then have "(d2 + 1) * (k + 1) \<le> d * (k + 1)" by (rule mult_le_mono1)
    then have "d2 * (k + 1) + (k + 1) \<le> d * (k + 1)" by (simp add: add_mult_distrib)
    with m m2 a(1) pf(2) show ?thesis by linarith
  qed
qed

lemma generate_loop_total:
  assumes "valid_rng t"
  shows "\<exists>r. generate_loop s t = Some r \<and>
     (\<forall>s' t'. r = Inr (s', t') \<longrightarrow>
        valid_rng t' \<and> imageWidth s' = imageWidth s \<and> imageHeight s' = imageHeight s \<and>
        gen_minDist s' = gen_minDist s)"
  using assms
proof (induction "uniform_measure s" arbitrary: s t rule: less_induct)
  case less
  show ?case
  proof (cases "0 < length (processingList s) \<and> int (length (sampledList s)) < pointCount s")
    case False
    then have "generate_loop s t = Some (Inr (s, t))"
      by (subst generate_loop.simps) auto
    with less.prems show ?thesis by simp
  next
    case True
    show ?thesis
    proof (cases "popRandom s t")
      case (Inl e)
      with True have "generate_loop s t = Some (Inl e)"
        by (subst generate_loop.simps) auto
      then show ?thesis by simp
    next
      case (Inr x)
      then obtain rp s1 t1 where p: "popRandom s t = Inr (rp, s1, t1)" by (cases x) auto
      note pf = popRandom_Inr[OF p]
      have v1: "valid_rng t1" using less.prems pf(10) by (simp add: valid_rng_stl)
      show ?thesis
      proof (cases "generate_batch (nat (newPointsToGenerate s1)) rp s1 t1")
        case (Inl e)
        with True p have "generate_loop s t = Some (Inl e)"
          by (subst generate_loop.simps) auto
        then show ?thesis by simp
      next
        case (Inr y)
        then obtain s2 t2 where b: "generate_batch (nat (newPointsToGenerate s1)) rp s1 t1 = Inr (s2, t2)"
          by (cases y) auto
        have lt: "uniform_measure s2 < uniform_measure s"
          using True uniform_measure_step[OF _ _ p b] by simp
        have v2: "valid_rng t2" by (rule generate_batch_rng[OF b v1])
        from less.hyps[OF lt v2] obtain r where r: "generate_loop s2 t2 = Some r"
          "\<forall>s' t'. r = Inr (s', t') \<longrightarrow>
             valid_rng t' \<and> imageWidth s' = imageWidth s2 \<and> imageHeight s' = imageHeight s2 \<and>
             gen_minDist s' = gen_minDist s2" by blast
        have "generate_loop s t = generate_loop s2 t2"
          using True p b by (subst generate_loop.simps) auto
        with r pf generate_batch_frame[OF b] show ?thesis by simp
      qed
    qed
  qed
qed

lemma weighted_step_progress:
  assumes "0 < length (processingList s)" "int (length (sampledList s)) < pointCount s"
    and st: "weighted_step s w q t = Inr (s1, q1, t1)"
  shows "weighted_measure s1 < weighted_measure s"
    and "valid_rng t \<Longrightarrow> valid_rng t1"
proof -
  from st obtain rp s0 t0 q0 where p: "popRandom s t = Inr (rp, s0, t0)"
    and b: "weighted_batch (nat (newPointsToGenerate s0)) rp s0 w q t0 = Inr (q0, t1)"
    and d: "drain s0 q0 False = Inr (s1, q1)"
    by (auto simp: weighted_step_def split: sum.splits)
  note pf = popRandom_Inr[OF p] and df = drain_frame[OF d]
  from drain_progress[OF d] obtain a where a: "a \<le> 1"
    "length (sampledList s1) = length (sampledList s0) + a"
    "length (processingList s1) = length (processingList s0) + a" by auto
  show "weighted_measure s1 < weighted_measure s"
    using a pf df assms(1,2) by (cases "a = 0") (auto simp: weighted_measure_def)
  assume "valid_rng t"
  then have "valid_rng t0" using pf(10) by (simp add: valid_rng_stl)
  then show "valid_rng t1" by (rule weighted_batch_rng[OF b])
qed

lemma weighted_loop_total:
  assumes "valid_rng t"
  shows "\<exists>r. weighted_loop s w q t = Some r \<and>
     (\<forall>s' q' t'. r = Inr (s', q', t') \<longrightarrow>
        valid_rng t' \<and> imageWidth s' = imageWidth s \<and> imageHeight s' = imageHeight s \<and>
        gen_minDist s' = gen_minDist s)"
  using assms
proof (induction "weighted_measure s" arbitrary: s q t rule: less_induct)
  case less
  show ?case
  proof (cases "0 < length (processingList s) \<and> int (length (sampledList s)) < pointCount s")
    case False
    then have "weighted_loop s w q t = Some (Inr (s, q, t))"
      by (subst weighted_loop.simps) auto
    with less.prems show ?thesis by simp
  next
    case True
    show ?thesis
    proof (cases "weighted_step s w q t")
      case (Inl e)
      with True have "weighted_loop s w q t = Some (Inl e)"
        by (subst weighted_loop.simps) auto
      then show ?thesis by simp
    next
      case (Inr x)
      then obtain s1 q1 t1 where st: "weighted_step s w q t = Inr (s1, q1, t1)"
        by (cases x) auto
      have lt: "weighted_measure s1 < weighted_measure s"
        and v1: "valid_rng t1"
        using True weighted_step_progress[OF _ _ st] less.prems by simp_all
      from less.hyps[OF lt v1] obtain r where r: "weighted_loop s1 w q1 t1 = Some r"
        "\<forall>s' q' t'. r = Inr (s', q', t') \<longrightarrow>
           valid_rng t' \<and> imageWidth s' = imageWidth s1 \<and> imageHeight s' = imageHeight s1 \<and>
           gen_minDist s' = gen_minDist s1" by blast
      have "weighted_loop s w q t = weighted_loop s1 w q1 t1"
        using True st by (subst weighted_loop.simps) auto
      with r weighted_step_frame[OF st] show ?thesis by simp
    qed
  qed
qed

lemma boundary_deltas_props:
  assumes "valid_rng t" "0 < gen_minDist s" "1 \<le> ar"
  shows "gen_minDist s \<le> upperWidth (fst (boundary_deltas s ar t))"
    and "valid_rng (snd (boundary_deltas s ar t))"
proof -
  let ?m = "gen_minDist s"
  have u: "0 \<le> shd t" using valid_rng_shd[OF assms(1)] by simp
  have a: "?m \<le> ?m * ar" using assms(2,3) by simp
  have m0: "0 \<le> ?m * shd t" using assms(2) u by simp
  have "0 \<le> (?m * ar) * shd t" using assms(2,3) u by simp
  then have b: "0 \<le> (2 * ?m * ar - ?m * ar) * shd t" by (simp add: algebra_simps)
  have c: "0 \<le> (2 * ?m - ?m) * shd t" using m0 by simp
  show "?m \<le> upperWidth (fst (boundary_deltas s ar t))"
  proof (cases "imageWidth s > imageHeight s")
    case True
    then have "upperWidth (fst (boundary_deltas s ar t)) = ?m * ar + (2 * ?m * ar - ?m * ar) * shd t"
      by (simp add: boundary_deltas_def random_uniform_def Let_def split: prod.splits)
    with a b show ?thesis by linarith
  next
    case False
    then have "upperWidth (fst (boundary_deltas s ar t)) = ?m + (2 * ?m - ?m) * shd t"
      by (simp add: boundary_deltas_def random_uniform_def Let_def split: prod.splits)
    with c show ?thesis by linarith
  qed
  have "snd (boundary_deltas s ar t) = stl (stl (stl (stl t)))"
    by (simp add: boundary_deltas_def random_uniform_def Let_def split: prod.splits)
  then show "valid_rng (snd (boundary_deltas s ar t))"
    using assms(1) by (simp add: valid_rng_stl)
qed

lemma boundary_loop_total:
  assumes "valid_rng t" "0 < gen_minDist s" "1 \<le> ar"
  shows "\<exists>r. boundary_loop s ar c t = Some r"
  using assms
proof (induction "nat \<lceil>(of_int (imageWidth s) - upperWidth c) / gen_minDist s\<rceil>"
    arbitrary: s c t rule: less_induct)
  case less
  let ?cond = "lowerWidth c < of_int (imageWidth s) \<and> upperWidth c < of_int (imageWidth s) \<and>
         leftHeight c < of_int (imageHeight s) \<and> rightHeight c < of_int (imageHeight s)"
  show ?case
  proof (cases ?cond)
    case False
    then have "boundary_loop s ar c t = Some (s, t)"
      by (subst boundary_loop.simps) auto
    then show ?thesis by simp
  next
    case True
    define s1 where "s1 = s\<lparr>sampledList := sampledList s @ boundary_points s c\<rparr>"
    define d where "d = fst (boundary_deltas s1 ar t)"
    define t1 where "t1 = snd (boundary_deltas s1 ar t)"
    define c1 where "c1 = \<lparr>upperWidth = upperWidth c + upperWidth d, lowerWidth = lowerWidth c + lowerWidth d,
         leftHeight = leftHeight c + leftHeight d, rightHeight = rightHeight c + rightHeight d\<rparr>"
    have f: "gen_minDist s1 = gen_minDist s" "imageWidth s1 = imageWidth s"
      by (simp_all add: s1_def)
    have m1: "0 < gen_minDist s1" using less.prems(2) f by simp
    note bp = boundary_deltas_props[OF less.prems(1) m1 less.prems(3)]
    have step: "gen_minDist s \<le> upperWidth d" and v1: "valid_rng t1"
      using bp f by (simp_all add: d_def t1_def)
    let ?m = "gen_minDist s"
    let ?x = "(of_int (imageWidth s) - upperWidth c) / ?m"
    let ?y = "(of_int (imageWidth s) - upperWidth c1) / ?m"
    have xpos: "0 < ?x" using True less.prems(2) by simp
    have "of_int (imageWidth s) - upperWidth c1 \<le> (of_int (imageWidth s) - upperWidth c) - ?m"
      using step by (simp add: c1_def)
    then have "?y \<le> ((of_int (imageWidth s) - upperWidth c) - ?m) / ?m"
      using less.prems(2) by (simp only: divide_right_mono less_imp_le)
    also have "\<dots> = ?x - 1" using less.prems(2) by (simp add: diff_divide_distrib)
    finally have "\<lceil>?y\<rceil> \<le> \<lceil>?x - 1\<rceil>" by (rule ceiling_mono)
    then have "\<lceil>?y\<rceil> \<le> \<lceil>?x\<rceil> - 1" by simp
    moreover have "0 < \<lceil>?x\<rceil>" using xpos by (simp add: ceiling_less_iff)
    ultimately have lt: "nat \<lceil>(of_int (imageWidth s1) - upperWidth c1) / gen_minDist s1\<rceil>
        < nat \<lceil>(of_int (imageWidth s) - upperWidth c) / gen_minDist s\<rceil>"
      unfolding f by linarith
    from less.hyps[OF lt v1 m1 less.prems(3)] obtain r where r: "boundary_loop s1 ar c1 t1 = Some r"
      by blast
    have "boundary_loop s ar c t = boundary_loop s1 ar c1 t1"
      using True
      by (subst boundary_loop.simps)
         (simp add: s1_def d_def t1_def c1_def Let_def split: prod.splits)
    with r show ?thesis by simp
  qed
qed

lemma generateBoundary_total:
  assumes "valid_rng t" "0 < gen_minDist s" "1 \<le> imageWidth s" "1 \<le> imageHeight s"
  shows "\<exists>r. generateBoundary s t = Some r"
proof -
  let ?ar = "if imageWidth s > imageHeight s
             then real_of_int (imageWidth s) / of_int (imageHeight s)
             else of_int (imageHeight s) / of_int (imageWidth s)"
  have ar: "1 \<le> ?ar" using assms(3,4) by (auto simp: le_divide_eq)
  from boundary_loop_total[OF assms(1,2) ar] obtain r where
    "boundary_loop s ?ar \<lparr>upperWidth = 0, lowerWidth = 0, leftHeight = 0, rightHeight = 0\<rparr> t = Some r"
    by blast
  then show ?thesis
    using assms(3,4) by (cases r) (auto simp: generateBoundary_def Let_def)
qed

text \<open>
  C4. For an image of width and height at least 1, \<open>minDist > 0\<close>, the grid built for
  them, any target count, any number of candidates per step, any weight surface and any
  random source with values in \<open>[0, 1)\<close>, both \<open>generate\<close> and \<open>generateWeighted\<close> return
  after finitely many steps: with the list of points, or with the exception raised on the
  way.
\<close>

theorem samplers_terminate:
  assumes "0 < m" "1 \<le> W" "1 \<le> H" "valid_rng t" "Grid_init m W H = Inr g"
  shows "(\<exists>r. generate (BlueNoiseGenerator_init pc H W g m k) t = Some r) \<and>
         (\<exists>r. generateWeighted (BlueNoiseGenerator_init pc H W g m k) w t = Some r)"
proof
  let ?G = "BlueNoiseGenerator_init pc H W g m k"
  have G: "imageWidth ?G = W" "imageHeight ?G = H" "gen_minDist ?G = m"
    using Grid_init_Inr(2)[OF assms(5)] by (simp_all add: BlueNoiseGenerator_init_def)
  show "\<exists>r. generate ?G t = Some r"
  proof (cases "seed ?G t")
    case (Inl e)
    then show ?thesis by (simp add: generate_def generate_main_def)
  next
    case (Inr x)
    then obtain s0 t0 where sd: "seed ?G t = Inr (s0, t0)" by (cases x) auto
    note sf = seed_Inr[OF sd]
    have v0: "valid_rng t0" using assms(4) sf(10) by (simp add: valid_rng_stl)
    from generate_loop_total[OF v0, of s0] obtain r where r: "generate_loop s0 t0 = Some r"
      and post: "\<forall>s' t'. r = Inr (s', t') \<longrightarrow>
        valid_rng t' \<and> imageWidth s' = imageWidth s0 \<and> imageHeight s' = imageHeight s0 \<and>
        gen_minDist s' = gen_minDist s0" by blast
    have gm: "generate_main ?G t = Some r" using sd r by (simp add: generate_main_def)
    show ?thesis
    proof (cases r)
      case (Inl e)
      with gm show ?thesis by (simp add: generate_def)
    next
      case (Inr y)
      then obtain s1 t1 where y: "r = Inr (s1, t1)" by (cases y) auto
      with post sf G assms have "valid_rng t1" "0 < gen_minDist s1" "1 \<le> imageWidth s1" "1 \<le> imageHeight s1"
        by simp_all
      from generateBoundary_total[OF this] obtain b where "generateBoundary s1 t1 = Some b" by blast
      with gm y show ?thesis by (cases b) (auto simp: generate_def)
    qed
  qed
  show "\<exists>r. generateWeighted ?G w t = Some r"
  proof (cases "seed ?G t")
    case (Inl e)
    then show ?thesis by (simp add: generateWeighted_def generateWeighted_main_def)
  next
    case (Inr x)
    then obtain s0 t0 where sd: "seed ?G t = Inr (s0, t0)" by (cases x) auto
    note sf = seed_Inr[OF sd]
    have v0: "valid_rng t0" using assms(4) sf(10) by (simp add: valid_rng_stl)
    from weighted_loop_total[OF v0, of s0 w "[]"] obtain r where r: "weighted_loop s0 w [] t0 = Some r"
      and post: "\<forall>s' q' t'. r = Inr (s', q', t') \<longrightarrow>
        valid_rng t' \<and> imageWidth s' = imageWidth s0 \<and> imageHeight s' = imageHeight s0 \<and>
        gen_minDist s' = gen_minDist s0" by blast
    have gm: "generateWeighted_main ?G w t = Some r" using sd r by (simp add: generateWeighted_main_def)
    show ?thesis
    proof (cases r)
      case (Inl e)
      with gm show ?thesis by (simp add: generateWeighted_def)
    next
      case (Inr y)
      then obtain s1 q1 t1 where y: "r = Inr (s1, q1, t1)" by (cases y) auto
      with post sf G assms have "valid_rng t1" "0 < gen_minDist s1" "1 \<le> imageWidth s1" "1 \<le> imageHeight s1"
        by simp_all
      from generateBoundary_total[OF this] obtain b where "generateBoundary s1 t1 = Some b" by blast
      with gm y show ?thesis by (cases b) (auto simp: generateWeighted_def)
    qed
  qed
qed

theorem samplers_terminate_witness:
  "(0::real) < 18 \<and> (1::int) \<le> 100 \<and>
   valid_rng (32 / 101 ## 40 / 101 ## 0 ## 4 / 5 ## sconst 0) \<and>
   Grid_init 18 100 100 = Inr ex_grid \<and>
   (\<exists>r. generate (BlueNoiseGenerator_init 3 100 100 ex_grid 18 2)
           (32 / 101 ## 40 / 101 ## 0 ## 4 / 5 ## sconst 0) = Some r) \<and>
   (\<exists>r. generateWeighted (BlueNoiseGenerator_init 3 100 100 ex_grid 18 2) ex_weights
           (32 / 101 ## 40 / 101 ## 0 ## 4 / 5 ## sconst 0) = Some r)"
proof -
  have m: "(0::real) < 18" and w: "(1::int) \<le> 100" by simp_all
  have v: "valid_rng (32 / 101 ## 40 / 101 ## 0 ## 4 / 5 ## sconst 0)"
    by (simp add: valid_rng_SCons valid_rng_sconst)
  from samplers_terminate [OF m w w v Grid_init_18, of 3 2 ex_weights] m w v Grid_init_18
  show ?thesis by blast
qed

end
